theory Spec2Isabelle
  imports Complex_Main
begin

section \<open>Numbers and geometric values\<close>

text \<open>
  The values of the C++ type \<^verbatim>\<open>double\<close> as far as the comparison \<^verbatim>\<open><\<close> can tell
  them apart: the finite values (embedded in the reals; the two zeros compare equal),
  the two infinities and not-a-number.
\<close>

datatype double = Finite real | PlusInf | MinusInf | NaN

text \<open>The operator \<^verbatim>\<open><\<close> on doubles: every comparison with a NaN operand is false.\<close>

fun dlt :: "double \<Rightarrow> double \<Rightarrow> bool" where
  "dlt (Finite a) (Finite b) = (a < b)"
| "dlt (Finite a) PlusInf = True"
| "dlt MinusInf (Finite b) = True"
| "dlt MinusInf PlusInf = True"
| "dlt _ _ = False"

text \<open>The operator \<^verbatim>\<open><=\<close> on doubles, used to state properties only.\<close>

fun dle :: "double \<Rightarrow> double \<Rightarrow> bool" where
  "dle (Finite a) (Finite b) = (a \<le> b)"
| "dle (Finite a) PlusInf = True"
| "dle MinusInf (Finite b) = True"
| "dle MinusInf MinusInf = True"
| "dle MinusInf PlusInf = True"
| "dle PlusInf PlusInf = True"
| "dle _ _ = False"

fun is_nan :: "double \<Rightarrow> bool" where
  "is_nan NaN = True"
| "is_nan _ = False"

text \<open>\<^verbatim>\<open>std::numeric_limits<double>::max()\<close>: the largest finite double, \<open>(2 - 2\<^sup>-\<^sup>5\<^sup>2) * 2\<^sup>1\<^sup>0\<^sup>2\<^sup>3\<close>.\<close>

definition DBL_MAX :: double where
  "DBL_MAX = Finite (2 ^ 1024 - 2 ^ 971)"

text \<open>\<^verbatim>\<open>gp_Pnt\<close> and \<^verbatim>\<open>gp_Vec\<close>: three coordinates each.\<close>

type_synonym gp_Pnt = "double \<times> double \<times> double"
type_synonym gp_Vec = "double \<times> double \<times> double"

text \<open>
  Modelled from the spec: \<^verbatim>\<open>occ::origin3d\<close> is declared in \<^verbatim>\<open>occtools/utils.h\<close>, which is
  not among the sources; the spec gives the sentinel point as the coordinate origin
  \<open>(0,0,0)\<close>.
\<close>

definition origin3d :: gp_Pnt where
  "origin3d = (Finite 0, Finite 0, Finite 0)"

section \<open>The geometry kernel\<close>

text \<open>
  The projector class \<^verbatim>\<open>GeomAPI_ProjectPointOnSurf\<close>, the face explorer, \<^verbatim>\<open>BRep_Tool::Surface\<close>
  and \<^verbatim>\<open>occ::normalToFaceAtUV\<close> belong to the geometry kernel and are taken as a
  parameter: a record of the operations the code calls. \<open>'c\<close> is the state of one
  projector object, \<open>'f\<close> a face (\<^verbatim>\<open>TopoDS_Face\<close>), \<open>'s\<close> a surface handle and \<open>'sh\<close> a
  shape (\<^verbatim>\<open>TopoDS_Shape\<close>).
\<close>

record ('c, 'f, 's, 'sh) kernel =
  Projector_t :: "gp_Pnt \<Rightarrow> 's \<Rightarrow> 'c"
  Perform :: "'c \<Rightarrow> gp_Pnt \<Rightarrow> 'c"
  IsDone :: "'c \<Rightarrow> bool"
  NbPoints :: "'c \<Rightarrow> int"
  LowerDistance :: "'c \<Rightarrow> double"
  NearestPoint :: "'c \<Rightarrow> gp_Pnt"
  LowerDistanceParameters :: "'c \<Rightarrow> double \<times> double"
  explore_faces :: "'sh \<Rightarrow> 'f list"
  Surface :: "'f \<Rightarrow> 's"
  normalToFaceAtUV :: "'f \<Rightarrow> double \<Rightarrow> double \<Rightarrow> gp_Vec"
  TopoDS_Face :: "'f"

section \<open>Program state\<close>

text \<open>
  Projector objects live on the free store and the class holds raw pointers to them, so
  the store is explicit: a map from addresses to projector objects. Address \<open>0\<close> is the
  null pointer. \<^verbatim>\<open>new\<close> hands out \<open>next_free\<close>, an address never used before; a pointer
  to a deleted object is therefore never valid again, as in the C++ abstract machine.
  \<open>projectors\<close> is the member \<^verbatim>\<open>_projectors\<close>, \<open>solProjector\<close> the member
  \<^verbatim>\<open>_solProjector\<close>.
\<close>

record ('c, 'f) projection =
  heap :: "nat \<Rightarrow> 'c option"
  next_free :: nat
  projectors :: "(nat \<times> 'f) list"
  solProjector :: "nat \<times> 'f"

text \<open>
  What stops the program: the failed \<^verbatim>\<open>assert\<close> of \<^verbatim>\<open>compute\<close>, and the undefined
  behaviour of reading through a null or dangling pointer or deleting an object twice.
\<close>

datatype fault = Assert_always_a_minimum | Null_dereference | Dangling_dereference | Invalid_delete

definition deref :: "(nat \<Rightarrow> 'c option) \<Rightarrow> nat \<Rightarrow> fault + 'c" where
  "deref h a =
     (if a = 0 then Inl Null_dereference
      else case h a of None \<Rightarrow> Inl Dangling_dereference | Some c \<Rightarrow> Inr c)"

section \<open>The comparison functor\<close>

text \<open>
  \<open>proj_dist\<close> is the value \<^verbatim>\<open>projector_compare\<close> computes for each of its two arguments
  (\<^verbatim>\<open>p1Dist\<close>, \<^verbatim>\<open>p2Dist\<close>): the lower distance of a projector that is done and has a
  point, and \<^verbatim>\<open>std::numeric_limits<double>::max()\<close> otherwise.
\<close>

definition has_solution :: "('c, 'f, 's, 'sh) kernel \<Rightarrow> 'c \<Rightarrow> bool" where
  "has_solution K p = (IsDone K p \<and> NbPoints K p > 0)"

definition proj_dist :: "('c, 'f, 's, 'sh) kernel \<Rightarrow> 'c \<Rightarrow> double" where
  "proj_dist K p = (if has_solution K p then LowerDistance K p else DBL_MAX)"

definition projector_compare :: "('c, 'f, 's, 'sh) kernel \<Rightarrow> 'c \<Rightarrow> 'c \<Rightarrow> bool" where
  "projector_compare K p1 p2 = dlt (proj_dist K p1) (proj_dist K p2)"

text \<open>
  The functor is handed pointers: the comparison \<^verbatim>\<open>compute\<close> binds takes two pool
  entries and reads both projectors through their first components.
\<close>

definition compare_entries ::
  "('c, 'f, 's, 'sh) kernel \<Rightarrow> (nat \<Rightarrow> 'c option) \<Rightarrow> nat \<times> 'f \<Rightarrow> nat \<times> 'f \<Rightarrow> fault + bool" where
  "compare_entries K h e1 e2 =
     (case deref h (fst e1) of
        Inl x \<Rightarrow> Inl x
      | Inr p1 \<Rightarrow>
          (case deref h (fst e2) of
             Inl x \<Rightarrow> Inl x
           | Inr p2 \<Rightarrow> Inr (projector_compare K p1 p2)))"

section \<open>The class BRepPointOnFacesProjection\<close>

text \<open>The default constructor: an empty pool and a null stored projector.\<close>

definition ctor :: "('c, 'f, 's, 'sh) kernel \<Rightarrow> ('c, 'f) projection" where
  "ctor K = \<lparr>heap = (\<lambda>a. None), next_free = 1, projectors = [], solProjector = (0, TopoDS_Face K)\<rparr>"

text \<open>\<^verbatim>\<open>releaseMemory\<close>: delete every non-null projector of the pool, then clear the pool.\<close>

fun delete_projectors :: "(nat \<Rightarrow> 'c option) \<Rightarrow> (nat \<times> 'f) list \<Rightarrow> fault + (nat \<Rightarrow> 'c option)" where
  "delete_projectors h [] = Inr h"
| "delete_projectors h (projector # rest) =
     (if fst projector \<noteq> 0 then
        (case h (fst projector) of
           None \<Rightarrow> Inl Invalid_delete
         | Some c \<Rightarrow> delete_projectors (h(fst projector := None)) rest)
      else delete_projectors h rest)"

definition releaseMemory :: "('c, 'f) projection \<Rightarrow> fault + ('c, 'f) projection" where
  "releaseMemory s =
     (case delete_projectors (heap s) (projectors s) of
        Inl x \<Rightarrow> Inl x
      | Inr h \<Rightarrow> Inr (s\<lparr>heap := h, projectors := []\<rparr>))"

text \<open>\<^verbatim>\<open>prepare\<close>: release the pool, then allocate one projector per explored face.\<close>

fun allocate_projectors ::
  "('c, 'f, 's, 'sh) kernel \<Rightarrow> 'f list \<Rightarrow> ('c, 'f) projection \<Rightarrow> ('c, 'f) projection" where
  "allocate_projectors K [] s = s"
| "allocate_projectors K (iFace # rest) s =
     allocate_projectors K rest
       (s\<lparr>heap := (heap s)(next_free s \<mapsto> Projector_t K origin3d (Surface K iFace)),
          next_free := Suc (next_free s),
          projectors := projectors s @ [(next_free s, iFace)]\<rparr>)"

definition prepare ::
  "('c, 'f, 's, 'sh) kernel \<Rightarrow> 'sh \<Rightarrow> ('c, 'f) projection \<Rightarrow> fault + ('c, 'f) projection" where
  "prepare K faces s =
     (case releaseMemory s of
        Inl x \<Rightarrow> Inl x
      | Inr s1 \<Rightarrow> Inr (allocate_projectors K (explore_faces K faces) s1))"

text \<open>The constructor taking a shape: the null stored projector, then \<^verbatim>\<open>prepare\<close>.\<close>

definition ctor_faces ::
  "('c, 'f, 's, 'sh) kernel \<Rightarrow> 'sh \<Rightarrow> fault + ('c, 'f) projection" where
  "ctor_faces K faces = prepare K faces (ctor K)"

text \<open>The \<^verbatim>\<open>std::for_each\<close> of \<^verbatim>\<open>compute\<close>: call \<^verbatim>\<open>Perform(point)\<close> on every projector of the pool.\<close>

fun for_each_Perform ::
  "('c, 'f, 's, 'sh) kernel \<Rightarrow> gp_Pnt \<Rightarrow> (nat \<times> 'f) list \<Rightarrow> (nat \<Rightarrow> 'c option) \<Rightarrow> fault + (nat \<Rightarrow> 'c option)" where
  "for_each_Perform K point [] h = Inr h"
| "for_each_Perform K point (e # rest) h =
     (case deref h (fst e) of
        Inl x \<Rightarrow> Inl x
      | Inr p \<Rightarrow> for_each_Perform K point rest (h(fst e \<mapsto> Perform K p point)))"

text \<open>
  \<^verbatim>\<open>std::min_element\<close>: the loop keeps the position of the smallest element seen so far
  and replaces it only by an element that compares less. The result is the position and
  the element there, or \<open>None\<close> for the end iterator of an empty range.
\<close>

fun min_element_loop ::
  "('a \<Rightarrow> 'a \<Rightarrow> fault + bool) \<Rightarrow> nat \<times> 'a \<Rightarrow> nat \<Rightarrow> 'a list \<Rightarrow> fault + (nat \<times> 'a)" where
  "min_element_loop cmp smallest i [] = Inr smallest"
| "min_element_loop cmp smallest i (x # rest) =
     (case cmp x (snd smallest) of
        Inl e \<Rightarrow> Inl e
      | Inr b \<Rightarrow> min_element_loop cmp (if b then (i, x) else smallest) (Suc i) rest)"

fun min_element :: "('a \<Rightarrow> 'a \<Rightarrow> fault + bool) \<Rightarrow> 'a list \<Rightarrow> fault + (nat \<times> 'a) option" where
  "min_element cmp [] = Inr None"
| "min_element cmp (x # rest) =
     (case min_element_loop cmp (0, x) 1 rest of
        Inl e \<Rightarrow> Inl e
      | Inr r \<Rightarrow> Inr (Some r))"

text \<open>
  \<^verbatim>\<open>compute\<close>, with the assertion compiled in. (With \<^verbatim>\<open>NDEBUG\<close> the statement after it
  reads through the end iterator, which is undefined behaviour as well.)
\<close>

definition compute ::
  "('c, 'f, 's, 'sh) kernel \<Rightarrow> gp_Pnt \<Rightarrow> ('c, 'f) projection \<Rightarrow> fault + ('c, 'f) projection" where
  "compute K point s =
     (case for_each_Perform K point (projectors s) (heap s) of
        Inl x \<Rightarrow> Inl x
      | Inr h \<Rightarrow>
          (case min_element (compare_entries K h) (projectors s) of
             Inl x \<Rightarrow> Inl x
           | Inr None \<Rightarrow> Inl Assert_always_a_minimum
           | Inr (Some iResult) \<Rightarrow> Inr (s\<lparr>heap := h, solProjector := snd iResult\<rparr>)))"

definition isDone :: "('c, 'f, 's, 'sh) kernel \<Rightarrow> ('c, 'f) projection \<Rightarrow> fault + bool" where
  "isDone K s =
     (if fst (solProjector s) \<noteq> 0 then
        (case deref (heap s) (fst (solProjector s)) of
           Inl x \<Rightarrow> Inl x
         | Inr projector \<Rightarrow> Inr (IsDone K projector \<and> NbPoints K projector > 0))
      else Inr False)"

definition solutionFace :: "('c, 'f, 's, 'sh) kernel \<Rightarrow> ('c, 'f) projection \<Rightarrow> fault + 'f" where
  "solutionFace K s =
     (case isDone K s of
        Inl x \<Rightarrow> Inl x
      | Inr d \<Rightarrow> if d then Inr (snd (solProjector s)) else Inr (TopoDS_Face K))"

definition solutionPoint :: "('c, 'f, 's, 'sh) kernel \<Rightarrow> ('c, 'f) projection \<Rightarrow> fault + gp_Pnt" where
  "solutionPoint K s =
     (case isDone K s of
        Inl x \<Rightarrow> Inl x
      | Inr d \<Rightarrow>
          if d then
            (case deref (heap s) (fst (solProjector s)) of
               Inl x \<Rightarrow> Inl x
             | Inr p \<Rightarrow> Inr (NearestPoint K p))
          else Inr origin3d)"

definition solutionUV ::
  "('c, 'f, 's, 'sh) kernel \<Rightarrow> ('c, 'f) projection \<Rightarrow> fault + (double \<times> double)" where
  "solutionUV K s =
     (case isDone K s of
        Inl x \<Rightarrow> Inl x
      | Inr d \<Rightarrow>
          if d then
            (case deref (heap s) (fst (solProjector s)) of
               Inl x \<Rightarrow> Inl x
             | Inr p \<Rightarrow> Inr (LowerDistanceParameters K p))
          else Inr (Finite 0, Finite 0))"

definition solutionNormal :: "('c, 'f, 's, 'sh) kernel \<Rightarrow> ('c, 'f) projection \<Rightarrow> fault + gp_Vec" where
  "solutionNormal K s =
     (case isDone K s of
        Inl x \<Rightarrow> Inl x
      | Inr d \<Rightarrow>
          if d then
            (case deref (heap s) (fst (solProjector s)) of
               Inl x \<Rightarrow> Inl x
             | Inr p \<Rightarrow>
                 Inr (normalToFaceAtUV K (snd (solProjector s))
                        (fst (LowerDistanceParameters K p)) (snd (LowerDistanceParameters K p))))
          else Inr (Finite 0, Finite 0, Finite 1))"

text \<open>Chained calls \<^verbatim>\<open>compute(q1).compute(q2)...\<close>, stopping at the first fault.\<close>

fun compute_all ::
  "('c, 'f, 's, 'sh) kernel \<Rightarrow> gp_Pnt list \<Rightarrow> ('c, 'f) projection \<Rightarrow> fault + ('c, 'f) projection" where
  "compute_all K [] s = Inr s"
| "compute_all K (q # qs) s =
     (case compute K q s of
        Inl x \<Rightarrow> Inl x
      | Inr s1 \<Rightarrow> compute_all K qs s1)"

section \<open>State predicates\<close>

text \<open>
  The pool is valid when its pointers are pairwise different, non-null and allocated:
  what \<^verbatim>\<open>prepare\<close> builds.
\<close>

definition pool_valid :: "('c, 'f) projection \<Rightarrow> bool" where
  "pool_valid s =
     (distinct (map fst (projectors s)) \<and>
      list_all (\<lambda>e. fst e \<noteq> 0 \<and> heap s (fst e) \<noteq> None) (projectors s))"

text \<open>The allocator's next address is non-null and nothing is allocated at or above it.\<close>

definition allocator_fresh :: "('c, 'f) projection \<Rightarrow> bool" where
  "allocator_fresh s = (0 < next_free s \<and> (\<forall>a. next_free s \<le> a \<longrightarrow> heap s a = None))"

text \<open>The projector of a pool entry is done with at least one point.\<close>

definition converged :: "('c, 'f, 's, 'sh) kernel \<Rightarrow> ('c, 'f) projection \<Rightarrow> nat \<times> 'f \<Rightarrow> bool" where
  "converged K s e = (case heap s (fst e) of None \<Rightarrow> False | Some c \<Rightarrow> has_solution K c)"

text \<open>
  Every converged projector of the pool reports a lower distance strictly below
  \<^verbatim>\<open>std::numeric_limits<double>::max()\<close>.
\<close>

definition distances_below_max :: "('c, 'f, 's, 'sh) kernel \<Rightarrow> ('c, 'f) projection \<Rightarrow> bool" where
  "distances_below_max K s =
     list_all (\<lambda>e. case heap s (fst e) of
                     None \<Rightarrow> True
                   | Some c \<Rightarrow> has_solution K c \<longrightarrow> dlt (LowerDistance K c) DBL_MAX)
       (projectors s)"

text \<open>
  The distance under which a projector takes part in the selection, written out for the
  statements: its lower distance when it is done with at least one point, and the
  largest finite double otherwise.
\<close>

definition compared_distance :: "('c, 'f, 's, 'sh) kernel \<Rightarrow> 'c \<Rightarrow> double" where
  "compared_distance K p =
     (if IsDone K p \<and> 0 < NbPoints K p then LowerDistance K p else DBL_MAX)"

text \<open>The store in which every projector of the pool has performed the projection of \<open>pt\<close>.\<close>

definition reproject ::
  "('c, 'f, 's, 'sh) kernel \<Rightarrow> gp_Pnt \<Rightarrow> ('c, 'f) projection \<Rightarrow> nat \<Rightarrow> 'c option" where
  "reproject K pt s =
     (\<lambda>a. if a \<in> fst ` set (projectors s) then map_option (\<lambda>c. Perform K c pt) (heap s a)
          else heap s a)"

text \<open>
  The pool as \<^verbatim>\<open>prepare\<close> leaves it: valid, below the allocator's next address, and
  every entry holding the projector constructed for the surface of its face.
\<close>

definition pool_fresh :: "('c, 'f, 's, 'sh) kernel \<Rightarrow> ('c, 'f) projection \<Rightarrow> bool" where
  "pool_fresh K s =
     (distinct (map fst (projectors s)) \<and>
      (\<forall>e\<in>set (projectors s). fst e \<noteq> 0 \<and> fst e < next_free s \<and>
          heap s (fst e) = Some (Projector_t K origin3d (Surface K (snd e)))) \<and>
      allocator_fresh s)"

text \<open>
  The states a program reaches through the interface of the class: construction, then
  calls of \<^verbatim>\<open>prepare\<close> and \<^verbatim>\<open>compute\<close> that return.
\<close>

inductive reachable :: "('c, 'f, 's, 'sh) kernel \<Rightarrow> ('c, 'f) projection \<Rightarrow> bool"
  for K :: "('c, 'f, 's, 'sh) kernel" where
  constructed: "reachable K (ctor K)"
| prepared: "reachable K s \<Longrightarrow> prepare K faces s = Inr s' \<Longrightarrow> reachable K s'"
| computed: "reachable K s \<Longrightarrow> compute K point s = Inr s' \<Longrightarrow> reachable K s'"

section \<open>A small kernel for concrete runs\<close>

text \<open>
  Surfaces are horizontal planes \<open>z = h\<close>, vertical planes \<open>x = h\<close>, or the null surface of
  a degenerate face, on which no projection converges. Projecting \<open>(x, y, z)\<close> on the
  plane \<open>z = h\<close> gives the point \<open>(x, y, h)\<close> with parameters \<open>(x, y)\<close>, and on the plane
  \<open>x = h\<close> the point \<open>(h, y, z)\<close> with parameters \<open>(y, z)\<close>; the lower distance is the
  square root of the squared distance along the normal: a squared distance beyond the
  largest finite double has overflowed to infinity, and a NaN coordinate along the normal
  gives a NaN distance.
\<close>

datatype toy_surface = Plane_z real | Plane_x real | Null_surface

datatype toy_face = Face nat toy_surface | Null_face

record toy_projector =
  t_surface :: toy_surface
  t_done :: bool
  t_nb :: int
  t_dist :: double
  t_point :: gp_Pnt
  t_uv :: "double \<times> double"

fun toy_distance :: "double \<Rightarrow> real \<Rightarrow> double" where
  "toy_distance (Finite z) h = (if (z - h) ^ 2 > 2 ^ 1024 - 2 ^ 971 then PlusInf else Finite \<bar>z - h\<bar>)"
| "toy_distance PlusInf h = PlusInf"
| "toy_distance MinusInf h = PlusInf"
| "toy_distance NaN h = NaN"

fun toy_project :: "toy_surface \<Rightarrow> gp_Pnt \<Rightarrow> toy_projector" where
  "toy_project (Plane_z h) (x, y, z) =
     \<lparr>t_surface = Plane_z h, t_done = True, t_nb = 1, t_dist = toy_distance z h,
      t_point = (x, y, Finite h), t_uv = (x, y)\<rparr>"
| "toy_project (Plane_x h) (x, y, z) =
     \<lparr>t_surface = Plane_x h, t_done = True, t_nb = 1, t_dist = toy_distance x h,
      t_point = (Finite h, y, z), t_uv = (y, z)\<rparr>"
| "toy_project Null_surface p =
     \<lparr>t_surface = Null_surface, t_done = False, t_nb = 0, t_dist = Finite 0,
      t_point = p, t_uv = (Finite 0, Finite 0)\<rparr>"

fun toy_surface_of :: "toy_face \<Rightarrow> toy_surface" where
  "toy_surface_of (Face n sf) = sf"
| "toy_surface_of Null_face = Null_surface"

definition toy_kernel :: "(toy_projector, toy_face, toy_surface, toy_face list) kernel" where
  "toy_kernel =
     \<lparr>Projector_t = (\<lambda>p sf. toy_project sf p),
      Perform = (\<lambda>c p. toy_project (t_surface c) p),
      IsDone = t_done,
      NbPoints = t_nb,
      LowerDistance = t_dist,
      NearestPoint = t_point,
      LowerDistanceParameters = t_uv,
      explore_faces = (\<lambda>sh. sh),
      Surface = toy_surface_of,
      normalToFaceAtUV = (\<lambda>f u v. (Finite 0, Finite 0, Finite 1)),
      TopoDS_Face = Null_face\<rparr>"

text \<open>
  Pools built over this kernel, as the constructor taking a shape leaves them, and query
  points. \<open>two_squares\<close> with \<open>query_between\<close> is the scenario of the specification:
  faces at \<open>z = 0\<close> and \<open>z = 10\<close>, query point \<open>(0.5, 0.5, 3)\<close>.
\<close>

definition toy_pool :: "toy_face list \<Rightarrow> (toy_projector, toy_face) projection" where
  "toy_pool faces = allocate_projectors toy_kernel faces (ctor toy_kernel)"

definition two_squares :: "(toy_projector, toy_face) projection" where
  "two_squares = toy_pool [Face 1 (Plane_z 0), Face 2 (Plane_z 10)]"

definition equidistant :: "(toy_projector, toy_face) projection" where
  "equidistant = toy_pool [Face 1 (Plane_z 10), Face 2 (Plane_z 0), Face 3 (Plane_z 6)]"

definition all_degenerate :: "(toy_projector, toy_face) projection" where
  "all_degenerate = toy_pool [Face 1 Null_surface, Face 2 Null_surface]"

definition degenerate_then_plane :: "(toy_projector, toy_face) projection" where
  "degenerate_then_plane = toy_pool [Face 1 Null_surface, Face 2 (Plane_z 0)]"

definition plane_then_degenerate :: "(toy_projector, toy_face) projection" where
  "plane_then_degenerate = toy_pool [Face 1 (Plane_z 0), Face 2 Null_surface]"

definition query_between :: gp_Pnt where
  "query_between = (Finite (1 / 2), Finite (1 / 2), Finite 3)"

definition far_point :: gp_Pnt where
  "far_point = (Finite 0, Finite 0, Finite (10 ^ 200))"

text \<open>The states \<^verbatim>\<open>compute(far_point)\<close> leaves the last two pools in.\<close>

definition degenerate_then_plane_far :: "(toy_projector, toy_face) projection" where
  "degenerate_then_plane_far =
     degenerate_then_plane
       \<lparr>heap := reproject toy_kernel far_point degenerate_then_plane,
        solProjector := (1, Face 1 Null_surface)\<rparr>"

definition plane_then_degenerate_far :: "(toy_projector, toy_face) projection" where
  "plane_then_degenerate_far =
     plane_then_degenerate
       \<lparr>heap := reproject toy_kernel far_point plane_then_degenerate,
        solProjector := (2, Face 2 Null_surface)\<rparr>"

text \<open>
  A query point whose first coordinate is NaN, two pools with a vertical plane first, and
  the states \<^verbatim>\<open>compute(nan_point)\<close> leaves them in.
\<close>

definition nan_point :: gp_Pnt where
  "nan_point = (NaN, Finite 0, Finite 3)"

definition wall_then_floor :: "(toy_projector, toy_face) projection" where
  "wall_then_floor = toy_pool [Face 1 (Plane_x 0), Face 2 (Plane_z 0)]"

definition wall_then_floors :: "(toy_projector, toy_face) projection" where
  "wall_then_floors = toy_pool [Face 1 (Plane_x 0), Face 2 (Plane_z 0), Face 3 (Plane_z 6)]"

definition wall_then_floor_nan :: "(toy_projector, toy_face) projection" where
  "wall_then_floor_nan =
     wall_then_floor
       \<lparr>heap := reproject toy_kernel nan_point wall_then_floor,
        solProjector := (1, Face 1 (Plane_x 0))\<rparr>"

definition wall_then_floors_nan :: "(toy_projector, toy_face) projection" where
  "wall_then_floors_nan =
     wall_then_floors
       \<lparr>heap := reproject toy_kernel nan_point wall_then_floors,
        solProjector := (1, Face 1 (Plane_x 0))\<rparr>"

text \<open>The pool of a shape without faces.\<close>

definition no_faces :: "(toy_projector, toy_face) projection" where
  "no_faces = toy_pool []"

section \<open>Auxiliary facts\<close>

subsection \<open>The order on doubles, the selection loop and the projection loop\<close>

lemma dlt_irrefl: "\<not> dlt a a"
  by (cases a) auto

lemma dlt_not_le: "\<not> is_nan a \<Longrightarrow> \<not> is_nan b \<Longrightarrow> (\<not> dlt a b) = dle b a"
  by (cases a; cases b) auto

lemma dlt_below: "dlt x b \<Longrightarrow> \<not> dlt y b \<Longrightarrow> \<not> dlt y x"
  by (cases x; cases b; cases y) auto

lemma dlt_above: "dlt x b \<Longrightarrow> \<not> dlt y b \<Longrightarrow> \<not> is_nan y \<Longrightarrow> dlt x y"
  by (cases x; cases b; cases y) auto

lemma min_element_loop_first_min:
  assumes cmp: "\<forall>x\<in>set (pre @ xs). \<forall>y\<in>set (pre @ xs). cmp x y = Inr (dlt (k x) (k y))"
    and b: "b < length pre"
    and lo: "\<forall>j<length pre. \<not> dlt (k ((pre @ xs) ! j)) (k ((pre @ xs) ! b))"
    and fst: "\<forall>j<b. \<not> is_nan (k ((pre @ xs) ! j)) \<longrightarrow> dlt (k ((pre @ xs) ! b)) (k ((pre @ xs) ! j))"
  shows "\<exists>r. min_element_loop cmp (b, (pre @ xs) ! b) (length pre) xs = Inr (r, (pre @ xs) ! r) \<and>
           r < length (pre @ xs) \<and>
           (\<forall>j<length (pre @ xs). \<not> dlt (k ((pre @ xs) ! j)) (k ((pre @ xs) ! r))) \<and>
           (\<forall>j<r. \<not> is_nan (k ((pre @ xs) ! j)) \<longrightarrow> dlt (k ((pre @ xs) ! r)) (k ((pre @ xs) ! j)))"
  using assms
proof (induction xs arbitrary: pre b)
  case Nil
  then show ?case by auto
next
  case (Cons x xs)
  let ?all = "pre @ x # xs"
  let ?pre' = "pre @ [x]"
  have all: "?pre' @ xs = ?all" by simp
  have xi: "?all ! length pre = x" by simp
  have xin: "x \<in> set ?all" by simp
  have bin: "?all ! b \<in> set ?all" using Cons.prems(2) by (metis length_append nth_mem trans_less_add1)
  have c: "cmp x (?all ! b) = Inr (dlt (k x) (k (?all ! b)))"
    using Cons.prems(1) bin xin by blast
  show ?case
  proof (cases "dlt (k x) (k (?all ! b))")
    case True
    have lo': "\<forall>j<length ?pre'. \<not> dlt (k ((?pre' @ xs) ! j)) (k ((?pre' @ xs) ! length pre))"
    proof (intro allI impI)
      fix j assume j: "j < length ?pre'"
      show "\<not> dlt (k ((?pre' @ xs) ! j)) (k ((?pre' @ xs) ! length pre))"
      proof (cases "j < length pre")
        case jl: True
        have "\<not> dlt (k (?all ! j)) (k (?all ! b))" using Cons.prems(3) jl by simp
        then have "\<not> dlt (k (?all ! j)) (k x)" using True dlt_below by blast
        then show ?thesis by simp
      next
        case False
        then have "j = length pre" using j by simp
        then show ?thesis using dlt_irrefl by simp
      qed
    qed
    have fst': "\<forall>j<length pre. \<not> is_nan (k ((?pre' @ xs) ! j)) \<longrightarrow>
                  dlt (k ((?pre' @ xs) ! length pre)) (k ((?pre' @ xs) ! j))"
    proof (intro allI impI)
      fix j assume jl: "j < length pre" and nn: "\<not> is_nan (k ((?pre' @ xs) ! j))"
      have "\<not> dlt (k (?all ! j)) (k (?all ! b))" using Cons.prems(3) jl by simp
      moreover have "\<not> is_nan (k (?all ! j))" using nn by simp
      ultimately have "dlt (k x) (k (?all ! j))" using True dlt_above by blast
      then show "dlt (k ((?pre' @ xs) ! length pre)) (k ((?pre' @ xs) ! j))" by simp
    qed
    have "\<exists>r. min_element_loop cmp (length pre, (?pre' @ xs) ! length pre) (length ?pre') xs
              = Inr (r, (?pre' @ xs) ! r) \<and>
           r < length (?pre' @ xs) \<and>
           (\<forall>j<length (?pre' @ xs). \<not> dlt (k ((?pre' @ xs) ! j)) (k ((?pre' @ xs) ! r))) \<and>
           (\<forall>j<r. \<not> is_nan (k ((?pre' @ xs) ! j)) \<longrightarrow> dlt (k ((?pre' @ xs) ! r)) (k ((?pre' @ xs) ! j)))"
      apply (rule Cons.IH)
      using Cons.prems(1) lo' fst' by simp_all
    then show ?thesis using c True by simp
  next
    case False
    have lo': "\<forall>j<length ?pre'. \<not> dlt (k ((?pre' @ xs) ! j)) (k ((?pre' @ xs) ! b))"
    proof (intro allI impI)
      fix j assume j: "j < length ?pre'"
      show "\<not> dlt (k ((?pre' @ xs) ! j)) (k ((?pre' @ xs) ! b))"
      proof (cases "j < length pre")
        case True
        then show ?thesis using Cons.prems(3) by simp
      next
        case F: False
        then have "j = length pre" using j by simp
        then show ?thesis using False by simp
      qed
    qed
    have "\<exists>r. min_element_loop cmp (b, (?pre' @ xs) ! b) (length ?pre') xs
              = Inr (r, (?pre' @ xs) ! r) \<and>
           r < length (?pre' @ xs) \<and>
           (\<forall>j<length (?pre' @ xs). \<not> dlt (k ((?pre' @ xs) ! j)) (k ((?pre' @ xs) ! r))) \<and>
           (\<forall>j<r. \<not> is_nan (k ((?pre' @ xs) ! j)) \<longrightarrow> dlt (k ((?pre' @ xs) ! r)) (k ((?pre' @ xs) ! j)))"
      apply (rule Cons.IH)
      using Cons.prems lo' by simp_all
    then show ?thesis using c False by simp
  qed
qed

lemma min_element_first_min:
  assumes cmp: "\<forall>x\<in>set xs. \<forall>y\<in>set xs. cmp x y = Inr (dlt (k x) (k y))"
    and ne: "xs \<noteq> []"
  shows "\<exists>r. min_element cmp xs = Inr (Some (r, xs ! r)) \<and> r < length xs \<and>
           (\<forall>j<length xs. \<not> dlt (k (xs ! j)) (k (xs ! r))) \<and>
           (\<forall>j<r. \<not> is_nan (k (xs ! j)) \<longrightarrow> dlt (k (xs ! r)) (k (xs ! j)))"
proof -
  obtain x rest where xs: "xs = x # rest" using ne by (cases xs) auto
  have "\<exists>r. min_element_loop cmp (0, ([x] @ rest) ! 0) (length [x]) rest = Inr (r, ([x] @ rest) ! r) \<and>
           r < length ([x] @ rest) \<and>
           (\<forall>j<length ([x] @ rest). \<not> dlt (k (([x] @ rest) ! j)) (k (([x] @ rest) ! r))) \<and>
           (\<forall>j<r. \<not> is_nan (k (([x] @ rest) ! j)) \<longrightarrow> dlt (k (([x] @ rest) ! r)) (k (([x] @ rest) ! j)))"
    apply (rule min_element_loop_first_min)
    using cmp xs dlt_irrefl by simp_all
  then show ?thesis using xs by auto
qed

lemma min_element_nonempty: "xs \<noteq> [] \<Longrightarrow> min_element cmp xs \<noteq> Inr None"
  by (cases xs) (auto split: sum.splits)

lemma for_each_Perform_valid:
  "distinct (map fst es) \<Longrightarrow> \<forall>e\<in>set es. fst e \<noteq> 0 \<and> h (fst e) \<noteq> None \<Longrightarrow>
   for_each_Perform K pt es h =
     Inr (\<lambda>a. if a \<in> fst ` set es then map_option (\<lambda>c. Perform K c pt) (h a) else h a)"
proof (induction es arbitrary: h)
  case Nil
  then show ?case by simp
next
  case (Cons e es)
  obtain c where c: "h (fst e) = Some c" using Cons.prems(2) by auto
  have ne: "fst e \<noteq> 0" using Cons.prems(2) by simp
  let ?h = "h(fst e \<mapsto> Perform K c pt)"
  have notin: "fst e \<notin> fst ` set es" using Cons.prems(1) by auto
  have "for_each_Perform K pt es ?h =
     Inr (\<lambda>a. if a \<in> fst ` set es then map_option (\<lambda>c. Perform K c pt) (?h a) else ?h a)"
    apply (rule Cons.IH)
    using Cons.prems notin by auto
  moreover have "(\<lambda>a. if a \<in> fst ` set es then map_option (\<lambda>c. Perform K c pt) (?h a) else ?h a)
      = (\<lambda>a. if a \<in> fst ` set (e # es) then map_option (\<lambda>c. Perform K c pt) (h a) else h a)"
    using notin c by (auto simp: fun_eq_iff)
  ultimately show ?case using c ne by (simp add: deref_def)
qed

subsection \<open>What \<open>compute\<close> does on a valid pool\<close>

lemma pool_valid_entry:
  "pool_valid s \<Longrightarrow> e \<in> set (projectors s) \<Longrightarrow> fst e \<noteq> 0 \<and> (\<exists>c. heap s (fst e) = Some c)"
  by (auto simp: pool_valid_def list_all_iff)

lemma reproject_entry:
  "e \<in> set (projectors s) \<Longrightarrow> heap s (fst e) = Some c \<Longrightarrow>
   reproject K pt s (fst e) = Some (Perform K c pt)"
  by (auto simp: reproject_def)

lemma for_each_Perform_pool:
  "pool_valid s \<Longrightarrow> for_each_Perform K pt (projectors s) (heap s) = Inr (reproject K pt s)"
  unfolding reproject_def
  by (rule for_each_Perform_valid) (auto simp: pool_valid_def list_all_iff)

lemma compute_selection:
  assumes v: "pool_valid s" and ne: "projectors s \<noteq> []"
  shows "\<exists>r cs. r < length (projectors s) \<and> length cs = length (projectors s) \<and>
           compute K pt s = Inr (s\<lparr>heap := reproject K pt s, solProjector := projectors s ! r\<rparr>) \<and>
           (\<forall>j<length cs. reproject K pt s (fst (projectors s ! j)) = Some (cs ! j)) \<and>
           (\<forall>j<length cs. \<not> dlt (proj_dist K (cs ! j)) (proj_dist K (cs ! r))) \<and>
           (\<forall>j<r. \<not> is_nan (proj_dist K (cs ! j)) \<longrightarrow>
                   dlt (proj_dist K (cs ! r)) (proj_dist K (cs ! j)))"
proof -
  let ?h = "reproject K pt s"
  let ?es = "projectors s"
  let ?k = "\<lambda>e. proj_dist K (the (?h (fst e)))"
  let ?cs = "map (\<lambda>e. the (?h (fst e))) ?es"
  have alloc: "\<And>e. e \<in> set ?es \<Longrightarrow> fst e \<noteq> 0 \<and> (\<exists>c. ?h (fst e) = Some c)"
  proof -
    fix e assume e: "e \<in> set ?es"
    then obtain c where c: "fst e \<noteq> 0" "heap s (fst e) = Some c"
      using pool_valid_entry [OF v] by blast
    have "?h (fst e) = Some (Perform K c pt)"
      using e c(2) by (rule reproject_entry)
    then show "fst e \<noteq> 0 \<and> (\<exists>c. ?h (fst e) = Some c)"
      using c(1) by simp
  qed
  have cmp: "\<forall>x\<in>set ?es. \<forall>y\<in>set ?es. compare_entries K ?h x y = Inr (dlt (?k x) (?k y))"
  proof (intro ballI)
    fix x y assume "x \<in> set ?es" "y \<in> set ?es"
    then obtain cx cy where "fst x \<noteq> 0" "?h (fst x) = Some cx" "fst y \<noteq> 0" "?h (fst y) = Some cy"
      using alloc by blast
    then show "compare_entries K ?h x y = Inr (dlt (?k x) (?k y))"
      by (simp add: compare_entries_def deref_def projector_compare_def)
  qed
  obtain r where r: "min_element (compare_entries K ?h) ?es = Inr (Some (r, ?es ! r))"
      "r < length ?es"
      "\<forall>j<length ?es. \<not> dlt (?k (?es ! j)) (?k (?es ! r))"
      "\<forall>j<r. \<not> is_nan (?k (?es ! j)) \<longrightarrow> dlt (?k (?es ! r)) (?k (?es ! j))"
    using min_element_first_min [OF cmp ne] by blast
  have c: "compute K pt s = Inr (s\<lparr>heap := ?h, solProjector := ?es ! r\<rparr>)"
    by (simp add: compute_def for_each_Perform_pool [OF v] r(1))
  have st: "\<forall>j<length ?cs. ?h (fst (?es ! j)) = Some (?cs ! j)"
  proof (intro allI impI)
    fix j assume "j < length ?cs"
    then have j: "j < length ?es" by simp
    then have "?es ! j \<in> set ?es" by simp
    then obtain c where "?h (fst (?es ! j)) = Some c" using alloc by blast
    then show "?h (fst (?es ! j)) = Some (?cs ! j)" using j by simp
  qed
  have kd: "\<And>j. j < length ?es \<Longrightarrow> proj_dist K (?cs ! j) = ?k (?es ! j)"
    by simp
  have lo: "\<forall>j<length ?cs. \<not> dlt (proj_dist K (?cs ! j)) (proj_dist K (?cs ! r))"
    using r(2,3) kd by (metis length_map)
  have fi: "\<forall>j<r. \<not> is_nan (proj_dist K (?cs ! j)) \<longrightarrow>
                   dlt (proj_dist K (?cs ! r)) (proj_dist K (?cs ! j))"
  proof (intro allI impI)
    fix j assume j: "j < r" and nn: "\<not> is_nan (proj_dist K (?cs ! j))"
    have jl: "j < length ?es" using j r(2) by simp
    have "\<not> is_nan (?k (?es ! j))" using nn kd [OF jl] by metis
    then have "dlt (?k (?es ! r)) (?k (?es ! j))" using r(4) j by blast
    then show "dlt (proj_dist K (?cs ! r)) (proj_dist K (?cs ! j))"
      using kd [OF jl] kd [OF r(2)] by metis
  qed
  have len: "length ?cs = length ?es" by simp
  show ?thesis
    using r(2) len c st lo fi by blast
qed

subsection \<open>The assertion of \<open>compute\<close>\<close>

lemma compute_empty: "projectors s = [] \<Longrightarrow> compute K pt s = Inl Assert_always_a_minimum"
  by (simp add: compute_def)

lemma deref_not_assert: "deref h a \<noteq> Inl Assert_always_a_minimum"
  by (simp add: deref_def split: option.splits)

lemma for_each_Perform_not_assert:
  "for_each_Perform K pt es h \<noteq> Inl Assert_always_a_minimum"
proof (induction es arbitrary: h)
  case Nil
  then show ?case by simp
next
  case (Cons e es)
  then show ?case using deref_not_assert [of h "fst e"]
    by (cases "deref h (fst e)") auto
qed

lemma compare_entries_not_assert: "compare_entries K h e1 e2 \<noteq> Inl Assert_always_a_minimum"
  using deref_not_assert [of h "fst e1"] deref_not_assert [of h "fst e2"]
  by (auto simp: compare_entries_def split: sum.splits)

lemma min_element_loop_not_assert:
  "(\<And>x y. cmp x y \<noteq> Inl Assert_always_a_minimum) \<Longrightarrow>
   min_element_loop cmp sm i xs \<noteq> Inl Assert_always_a_minimum"
proof (induction xs arbitrary: sm i)
  case Nil
  then show ?case by simp
next
  case (Cons x xs)
  show ?case
  proof (cases "cmp x (snd sm)")
    case (Inl e)
    then show ?thesis using Cons.prems [of x "snd sm"] by simp
  next
    case (Inr b)
    then show ?thesis using Cons.IH [OF Cons.prems] by simp
  qed
qed

lemma min_element_not_assert:
  "(\<And>x y. cmp x y \<noteq> Inl Assert_always_a_minimum) \<Longrightarrow>
   min_element cmp xs \<noteq> Inl Assert_always_a_minimum"
  using min_element_loop_not_assert [of cmp]
  by (cases xs) (auto split: sum.splits)

lemma compute_not_assert:
  assumes "projectors s \<noteq> []"
  shows "compute K pt s \<noteq> Inl Assert_always_a_minimum"
proof (cases "for_each_Perform K pt (projectors s) (heap s)")
  case (Inl e)
  then show ?thesis using for_each_Perform_not_assert [of K pt "projectors s" "heap s"]
    by (simp add: compute_def)
next
  case (Inr h)
  have a: "min_element (compare_entries K h) (projectors s) \<noteq> Inl Assert_always_a_minimum"
    by (rule min_element_not_assert) (rule compare_entries_not_assert)
  have b: "min_element (compare_entries K h) (projectors s) \<noteq> Inr None"
    using assms by (rule min_element_nonempty)
  show ?thesis using Inr a b
    by (auto simp: compute_def split: sum.splits option.splits)
qed

subsection \<open>The state after \<open>compute\<close>\<close>

lemma isDone_stored:
  "fst (solProjector s) \<noteq> 0 \<Longrightarrow> heap s (fst (solProjector s)) = Some c \<Longrightarrow>
   isDone K s = Inr (has_solution K c)"
  by (simp add: isDone_def deref_def has_solution_def)

lemma compute_outcome:
  assumes v: "pool_valid s" and c: "compute K pt s = Inr s'"
  shows "\<exists>r cs. r < length (projectors s') \<and> length cs = length (projectors s') \<and>
           projectors s' = projectors s \<and> heap s' = reproject K pt s \<and>
           next_free s' = next_free s \<and>
           solProjector s' = projectors s' ! r \<and>
           (\<forall>j<length cs. fst (projectors s' ! j) \<noteq> 0 \<and>
                          heap s' (fst (projectors s' ! j)) = Some (cs ! j)) \<and>
           (\<forall>j<length cs. \<not> dlt (proj_dist K (cs ! j)) (proj_dist K (cs ! r))) \<and>
           (\<forall>j<r. \<not> is_nan (proj_dist K (cs ! j)) \<longrightarrow>
                   dlt (proj_dist K (cs ! r)) (proj_dist K (cs ! j)))"
proof -
  have ne: "projectors s \<noteq> []"
    using c compute_empty [of s K pt] by auto
  obtain r cs where sel: "r < length (projectors s)" "length cs = length (projectors s)"
      "compute K pt s = Inr (s\<lparr>heap := reproject K pt s, solProjector := projectors s ! r\<rparr>)"
      "\<forall>j<length cs. reproject K pt s (fst (projectors s ! j)) = Some (cs ! j)"
      "\<forall>j<length cs. \<not> dlt (proj_dist K (cs ! j)) (proj_dist K (cs ! r))"
      "\<forall>j<r. \<not> is_nan (proj_dist K (cs ! j)) \<longrightarrow> dlt (proj_dist K (cs ! r)) (proj_dist K (cs ! j))"
    using compute_selection [OF v ne, of K pt] by blast
  have s': "s' = s\<lparr>heap := reproject K pt s, solProjector := projectors s ! r\<rparr>"
    using c sel(3) by simp
  have nz: "\<forall>j<length cs. fst (projectors s ! j) \<noteq> 0"
    using pool_valid_entry [OF v] sel(2) by simp
  have "r < length (projectors s') \<and> length cs = length (projectors s') \<and>
           projectors s' = projectors s \<and> heap s' = reproject K pt s \<and>
           next_free s' = next_free s \<and>
           solProjector s' = projectors s' ! r \<and>
           (\<forall>j<length cs. fst (projectors s' ! j) \<noteq> 0 \<and>
                          heap s' (fst (projectors s' ! j)) = Some (cs ! j))"
    using sel(1,2,4) nz by (simp add: s')
  then show ?thesis using sel(5,6) by blast
qed

lemma compute_returns:
  "pool_valid s \<Longrightarrow> projectors s \<noteq> [] \<Longrightarrow> \<exists>s'. compute K pt s = Inr s'"
  using compute_selection [of s K pt] by blast

lemma compute_pool_valid:
  assumes v: "pool_valid s" and c: "compute K pt s = Inr s'"
  shows "pool_valid s'"
proof -
  obtain r cs where o: "length cs = length (projectors s')" "projectors s' = projectors s"
     "\<forall>j<length cs. fst (projectors s' ! j) \<noteq> 0 \<and> heap s' (fst (projectors s' ! j)) = Some (cs ! j)"
    using compute_outcome [OF v c] by blast
  have "\<forall>e\<in>set (projectors s'). fst e \<noteq> 0 \<and> heap s' (fst e) \<noteq> None"
  proof
    fix e assume "e \<in> set (projectors s')"
    then obtain j where "j < length (projectors s')" "projectors s' ! j = e"
      by (auto simp: in_set_conv_nth)
    then show "fst e \<noteq> 0 \<and> heap s' (fst e) \<noteq> None" using o(1,3) by auto
  qed
  then show ?thesis using v o(2) by (simp add: pool_valid_def list_all_iff)
qed

lemma converged_nth:
  "heap s (fst e) = Some p \<Longrightarrow> converged K s e = has_solution K p"
  by (simp add: converged_def)

lemma below_max_entry:
  "distances_below_max K s \<Longrightarrow> e \<in> set (projectors s) \<Longrightarrow> heap s (fst e) = Some p \<Longrightarrow>
   has_solution K p \<Longrightarrow> dlt (LowerDistance K p) DBL_MAX"
  by (auto simp: distances_below_max_def list_all_iff)

lemma selected_converged_if_any:
  assumes o: "r < length es" "length cs = length es"
      "\<forall>j<length cs. \<not> dlt (proj_dist K (cs ! j)) (proj_dist K (cs ! r))"
    and j: "j < length es" "has_solution K (cs ! j)" "dlt (LowerDistance K (cs ! j)) DBL_MAX"
  shows "has_solution K (cs ! r)"
proof (rule ccontr)
  assume "\<not> has_solution K (cs ! r)"
  then have "proj_dist K (cs ! r) = DBL_MAX" by (simp add: proj_dist_def)
  moreover have "proj_dist K (cs ! j) = LowerDistance K (cs ! j)" using j(2) by (simp add: proj_dist_def)
  ultimately show False using o(2,3) j(1,3) by auto
qed

lemma DBL_MAX_not_nan: "\<not> is_nan DBL_MAX"
  by (simp add: DBL_MAX_def)

lemma proj_dist_failed: "\<not> has_solution K p \<Longrightarrow> proj_dist K p = DBL_MAX"
  by (simp add: proj_dist_def)

lemma proj_dist_compared: "proj_dist K p = compared_distance K p"
  by (simp add: proj_dist_def compared_distance_def has_solution_def)

lemma compute_reprojects:
  assumes v: "pool_valid s" and c: "compute K point s = Inr s'"
  shows "\<forall>e\<in>set (projectors s). \<forall>c. heap s (fst e) = Some c \<longrightarrow>
           heap s' (fst e) = Some (Perform K c point)"
proof (intro ballI allI impI)
  fix e c assume e: "e \<in> set (projectors s)" and h: "heap s (fst e) = Some c"
  have "heap s' = reproject K point s" using compute_outcome [OF v c] by blast
  then show "heap s' (fst e) = Some (Perform K c point)"
    using reproject_entry [OF e h] by simp
qed

subsection \<open>Order of the projections, earlier queries\<close>

lemma for_each_Perform_any_order:
  assumes v: "pool_valid s" and d: "distinct (map fst es)" and e: "set es = set (projectors s)"
  shows "for_each_Perform K pt es (heap s) = Inr (reproject K pt s)"
proof -
  have "\<forall>x\<in>set es. fst x \<noteq> 0 \<and> heap s (fst x) \<noteq> None"
    using pool_valid_entry [OF v] e by auto
  then have "for_each_Perform K pt es (heap s) =
     Inr (\<lambda>a. if a \<in> fst ` set es then map_option (\<lambda>c. Perform K c pt) (heap s a) else heap s a)"
    using d by (rule for_each_Perform_valid [rotated])
  then show ?thesis by (simp add: reproject_def e)
qed

lemma reproject_twice:
  assumes H: "\<forall>c q. Perform K (Perform K c q) point = Perform K c point"
  shows "reproject K point (s\<lparr>heap := reproject K q s, solProjector := x\<rparr>) = reproject K point s"
proof
  fix a
  show "reproject K point (s\<lparr>heap := reproject K q s, solProjector := x\<rparr>) a = reproject K point s a"
    by (cases "heap s a") (simp_all add: reproject_def H [rule_format])
qed

lemma compute_forgets:
  assumes v: "pool_valid s"
    and H: "\<forall>c q. Perform K (Perform K c q) point = Perform K c point"
    and c: "compute K q s = Inr s1"
  shows "compute K point s1 = compute K point s"
proof -
  have v1: "pool_valid s1" using v c by (rule compute_pool_valid)
  obtain r cs where o: "projectors s1 = projectors s" "heap s1 = reproject K q s"
      "next_free s1 = next_free s"
    using compute_outcome [OF v c] by blast
  have s1: "s1 = s\<lparr>heap := reproject K q s, solProjector := solProjector s1\<rparr>"
    using o by simp
  have h: "reproject K point s1 = reproject K point s"
    by (subst s1) (rule reproject_twice [OF H])
  have u: "\<And>h x. s1\<lparr>heap := h, solProjector := x\<rparr> = s\<lparr>heap := h, solProjector := x\<rparr>"
    by (subst s1) simp
  have a1: "for_each_Perform K point (projectors s) (heap s1) = Inr (reproject K point s)"
    using for_each_Perform_pool [OF v1, of K point] h o(1) by simp
  show ?thesis
    by (simp add: compute_def o(1) a1 for_each_Perform_pool [OF v] u
        split: sum.splits option.splits)
qed

lemma compute_all_forgets:
  assumes H: "\<forall>c q. Perform K (Perform K c q) point = Perform K c point"
  shows "pool_valid s \<Longrightarrow> compute_all K qs s = Inr s1 \<Longrightarrow>
         pool_valid s1 \<and> projectors s1 = projectors s \<and> compute K point s1 = compute K point s"
proof (induction qs arbitrary: s)
  case Nil
  then show ?case by simp
next
  case (Cons q qs)
  obtain s0 where s0: "compute K q s = Inr s0" "compute_all K qs s0 = Inr s1"
    using Cons.prems(2) by (auto split: sum.splits)
  have v0: "pool_valid s0" using Cons.prems(1) s0(1) by (rule compute_pool_valid)
  have p0: "projectors s0 = projectors s"
    using compute_outcome [OF Cons.prems(1) s0(1)] by blast
  have "compute K point s0 = compute K point s"
    using Cons.prems(1) H s0(1) by (rule compute_forgets)
  then show ?case using Cons.IH [OF v0 s0(2)] p0 by simp
qed

lemma compute_all_returns:
  "pool_valid s \<Longrightarrow> projectors s \<noteq> [] \<Longrightarrow> \<exists>s1. compute_all K qs s = Inr s1"
proof (induction qs arbitrary: s)
  case Nil
  then show ?case by simp
next
  case (Cons q qs)
  obtain s0 where s0: "compute K q s = Inr s0"
    using compute_returns [OF Cons.prems] by blast
  have v0: "pool_valid s0" using Cons.prems(1) s0 by (rule compute_pool_valid)
  have "projectors s0 = projectors s"
    using compute_outcome [OF Cons.prems(1) s0] by blast
  then have "projectors s0 \<noteq> []" using Cons.prems(2) by simp
  then show ?case using Cons.IH [OF v0] s0 by simp
qed

subsection \<open>\<open>releaseMemory\<close> and \<open>prepare\<close>\<close>

lemma delete_projectors_valid:
  "distinct (map fst es) \<Longrightarrow> \<forall>e\<in>set es. fst e \<noteq> 0 \<and> h (fst e) \<noteq> None \<Longrightarrow>
   delete_projectors h es = Inr (\<lambda>a. if a \<in> fst ` set es then None else h a)"
proof (induction es arbitrary: h)
  case Nil
  then show ?case by simp
next
  case (Cons e es)
  obtain c where c: "h (fst e) = Some c" using Cons.prems(2) by auto
  have ne: "fst e \<noteq> 0" using Cons.prems(2) by simp
  let ?h = "h(fst e := None)"
  have notin: "fst e \<notin> fst ` set es" using Cons.prems(1) by auto
  have al: "\<forall>x\<in>set es. fst x \<noteq> 0 \<and> ?h (fst x) \<noteq> None"
  proof
    fix x assume x: "x \<in> set es"
    then have "fst x \<noteq> fst e" using notin by (metis imageI)
    then show "fst x \<noteq> 0 \<and> ?h (fst x) \<noteq> None" using Cons.prems(2) x by simp
  qed
  have di: "distinct (map fst es)" using Cons.prems(1) by simp
  have "delete_projectors ?h es = Inr (\<lambda>a. if a \<in> fst ` set es then None else ?h a)"
    using di al by (rule Cons.IH)
  moreover have "(\<lambda>a. if a \<in> fst ` set es then None else ?h a)
      = (\<lambda>a. if a \<in> fst ` set (e # es) then None else h a)"
    by (auto simp: fun_eq_iff)
  ultimately show ?case using c ne by simp
qed

lemma releaseMemory_valid:
  assumes v: "pool_valid s"
  shows "releaseMemory s =
     Inr (s\<lparr>heap := (\<lambda>a. if a \<in> fst ` set (projectors s) then None else heap s a),
            projectors := []\<rparr>)"
proof -
  have "delete_projectors (heap s) (projectors s) =
      Inr (\<lambda>a. if a \<in> fst ` set (projectors s) then None else heap s a)"
    by (rule delete_projectors_valid) (use v in \<open>auto simp: pool_valid_def list_all_iff\<close>)
  then show ?thesis by (simp add: releaseMemory_def)
qed

lemma allocate_projectors_solProjector:
  "solProjector (allocate_projectors K fs s) = solProjector s"
  by (induction fs arbitrary: s) simp_all

lemma allocate_projectors_faces:
  "map snd (projectors (allocate_projectors K fs s)) = map snd (projectors s) @ fs"
  by (induction fs arbitrary: s) simp_all

lemma allocate_projectors_below:
  "a < next_free s \<Longrightarrow> heap (allocate_projectors K fs s) a = heap s a"
  by (induction fs arbitrary: s) simp_all

lemma pool_fresh_step:
  assumes "pool_fresh K s"
  shows "pool_fresh K
           (s\<lparr>heap := (heap s)(next_free s \<mapsto> Projector_t K origin3d (Surface K f)),
              next_free := Suc (next_free s),
              projectors := projectors s @ [(next_free s, f)]\<rparr>)"
proof -
  have d: "distinct (map fst (projectors s))"
    and e: "\<And>e. e \<in> set (projectors s) \<Longrightarrow> fst e \<noteq> 0 \<and> fst e < next_free s \<and>
          heap s (fst e) = Some (Projector_t K origin3d (Surface K (snd e)))"
    and n: "0 < next_free s" and fr: "\<And>a. next_free s \<le> a \<Longrightarrow> heap s a = None"
    using assms by (auto simp: pool_fresh_def allocator_fresh_def)
  let ?n = "next_free s"
  let ?h = "(heap s)(?n \<mapsto> Projector_t K origin3d (Surface K f))"
  have notin: "?n \<notin> set (map fst (projectors s))"
  proof
    assume "?n \<in> set (map fst (projectors s))"
    then obtain x where "x \<in> set (projectors s)" "fst x = ?n" by auto
    then show False using e [of x] by simp
  qed
  have d': "distinct (map fst (projectors s @ [(?n, f)]))"
    using d notin by simp
  have e': "\<forall>x\<in>set (projectors s @ [(?n, f)]). fst x \<noteq> 0 \<and> fst x < Suc ?n \<and>
          ?h (fst x) = Some (Projector_t K origin3d (Surface K (snd x)))"
  proof
    fix x assume x: "x \<in> set (projectors s @ [(?n, f)])"
    show "fst x \<noteq> 0 \<and> fst x < Suc ?n \<and>
          ?h (fst x) = Some (Projector_t K origin3d (Surface K (snd x)))"
    proof (cases "x \<in> set (projectors s)")
      case True
      then have "fst x \<noteq> 0 \<and> fst x < ?n \<and>
          heap s (fst x) = Some (Projector_t K origin3d (Surface K (snd x)))"
        by (rule e)
      then show ?thesis by simp
    next
      case False
      then have "x = (?n, f)" using x by simp
      then show ?thesis using n by simp
    qed
  qed
  have fr': "\<forall>a. Suc ?n \<le> a \<longrightarrow> ?h a = None"
    using fr by simp
  show ?thesis
    unfolding pool_fresh_def allocator_fresh_def
    using d' e' fr' by simp
qed

lemma pool_fresh_allocate:
  "pool_fresh K s \<Longrightarrow> pool_fresh K (allocate_projectors K fs s)"
proof (induction fs arbitrary: s)
  case Nil
  then show ?case by simp
next
  case (Cons f fs)
  show ?case using Cons.IH [OF pool_fresh_step [OF Cons.prems, of f]] by simp
qed

lemma prepare_replaces_pool:
  assumes v: "pool_valid s" and f: "allocator_fresh s"
  shows "\<exists>s'. prepare K faces s = Inr s' \<and>
           map snd (projectors s') = explore_faces K faces \<and>
           (\<forall>e\<in>set (projectors s'). heap s' (fst e) =
                Some (Projector_t K origin3d (Surface K (snd e)))) \<and>
           (\<forall>e\<in>set (projectors s). heap s' (fst e) = None \<and> fst e \<notin> fst ` set (projectors s')) \<and>
           pool_valid s' \<and> allocator_fresh s' \<and>
           solProjector s' = solProjector s"
proof -
  let ?s1 = "s\<lparr>heap := (\<lambda>a. if a \<in> fst ` set (projectors s) then None else heap s a),
            projectors := []\<rparr>"
  let ?s' = "allocate_projectors K (explore_faces K faces) ?s1"
  have r: "releaseMemory s = Inr ?s1" using v by (rule releaseMemory_valid)
  have p: "prepare K faces s = Inr ?s'" by (simp add: prepare_def r)
  have f1: "pool_fresh K ?s1"
    using f by (simp add: pool_fresh_def allocator_fresh_def)
  have pf: "pool_fresh K ?s'" using f1 by (rule pool_fresh_allocate)
  have faces: "map snd (projectors ?s') = explore_faces K faces"
    by (simp add: allocate_projectors_faces)
  have new: "\<forall>e\<in>set (projectors ?s'). heap ?s' (fst e) =
                Some (Projector_t K origin3d (Surface K (snd e)))"
    using pf by (simp add: pool_fresh_def)
  have old: "\<forall>e\<in>set (projectors s). heap ?s' (fst e) = None \<and> fst e \<notin> fst ` set (projectors ?s')"
  proof
    fix e assume e: "e \<in> set (projectors s)"
    have "heap s (fst e) \<noteq> None" using pool_valid_entry [OF v e] by auto
    then have "fst e < next_free s"
      using f unfolding allocator_fresh_def by (meson not_le_imp_less)
    then have "heap ?s' (fst e) = heap ?s1 (fst e)"
      by (simp add: allocate_projectors_below)
    then have n: "heap ?s' (fst e) = None" using e by simp
    have "fst e \<notin> fst ` set (projectors ?s')"
    proof
      assume "fst e \<in> fst ` set (projectors ?s')"
      then obtain x where "x \<in> set (projectors ?s')" "fst x = fst e" by auto
      then show False using new n by force
    qed
    then show "heap ?s' (fst e) = None \<and> fst e \<notin> fst ` set (projectors ?s')"
      using n by simp
  qed
  have pv: "pool_valid ?s'"
    using pf by (auto simp: pool_fresh_def pool_valid_def list_all_iff)
  have af: "allocator_fresh ?s'" using pf by (simp add: pool_fresh_def)
  have sp: "solProjector ?s' = solProjector s"
    by (simp add: allocate_projectors_solProjector)
  show ?thesis
    by (rule exI [of _ ?s']) (intro conjI p faces new old pv af sp)
qed

subsection \<open>Every reachable state has a valid pool\<close>

lemma compute_allocator_fresh:
  assumes v: "pool_valid s" and f: "allocator_fresh s" and c: "compute K pt s = Inr s'"
  shows "allocator_fresh s'"
proof -
  have o: "heap s' = reproject K pt s" "next_free s' = next_free s"
    using compute_outcome [OF v c] by blast+
  have "\<forall>a. next_free s \<le> a \<longrightarrow> reproject K pt s a = None"
    using f by (simp add: allocator_fresh_def reproject_def)
  then show ?thesis using f o by (simp add: allocator_fresh_def)
qed

lemma reachable_invariant: "reachable K s \<Longrightarrow> pool_valid s \<and> allocator_fresh s"
proof (induction rule: reachable.induct)
  case constructed
  show ?case by (simp add: ctor_def pool_valid_def allocator_fresh_def)
next
  case (prepared s faces s')
  obtain t where "prepare K faces s = Inr t" "pool_valid t" "allocator_fresh t"
    using prepare_replaces_pool [of s K faces] prepared.IH by blast
  then show ?case using prepared.hyps(2) by simp
next
  case (computed s point s')
  then show ?case using compute_pool_valid compute_allocator_fresh by blast
qed

subsection \<open>Evaluating concrete runs\<close>

lemmas toy_eval = toy_pool_def ctor_def toy_kernel_def compute_def deref_def compare_entries_def
  projector_compare_def proj_dist_def has_solution_def DBL_MAX_def isDone_def origin3d_def
  solutionFace_def solutionPoint_def solutionUV_def solutionNormal_def pool_valid_def
  converged_def

text \<open>The pools \<open>toy_pool\<close> names are the ones the constructor taking a shape builds.\<close>

lemma ctor_faces_toy_pool: "ctor_faces toy_kernel faces = Inr (toy_pool faces)"
  by (simp add: ctor_faces_def prepare_def releaseMemory_def toy_pool_def ctor_def toy_kernel_def)

lemma all_degenerate_compute:
  "\<exists>s'. compute toy_kernel query_between all_degenerate = Inr s' \<and>
        solProjector s' = (1, Face 1 Null_surface) \<and> isDone toy_kernel s' = Inr False"
  by (simp add: all_degenerate_def query_between_def toy_eval)

lemma equidistant_compute:
  "\<exists>s'. compute toy_kernel query_between equidistant = Inr s' \<and>
      projectors s' = [(1, Face 1 (Plane_z 10)), (2, Face 2 (Plane_z 0)), (3, Face 3 (Plane_z 6))] \<and>
      heap s' 1 = Some (toy_project (Plane_z 10) query_between) \<and>
      heap s' 2 = Some (toy_project (Plane_z 0) query_between) \<and>
      heap s' 3 = Some (toy_project (Plane_z 6) query_between) \<and>
      solProjector s' = (2, Face 2 (Plane_z 0))"
  by (simp add: equidistant_def query_between_def toy_eval)

lemma toy_surface_kept: "t_surface (toy_project sf q) = sf"
  by (cases sf; cases q) auto

lemma toy_Perform_fresh:
  "\<forall>c q. Perform toy_kernel (Perform toy_kernel c q) point = Perform toy_kernel c point"
  by (simp add: toy_kernel_def toy_surface_kept)

lemma two_squares_history:
  "\<exists>s1. compute_all toy_kernel [far_point, origin3d] two_squares = Inr s1 \<and>
      solProjector s1 = (1, Face 1 (Plane_z 0)) \<and>
      heap s1 2 = Some (toy_project (Plane_z 10) origin3d)"
  by (simp add: two_squares_def far_point_def toy_eval)

lemma all_degenerate_stored:
  "\<exists>s'. compute toy_kernel query_between all_degenerate = Inr s' \<and>
      projectors s' = [(1, Face 1 Null_surface), (2, Face 2 Null_surface)] \<and>
      heap s' 1 = Some (toy_project Null_surface query_between) \<and>
      heap s' 2 = Some (toy_project Null_surface query_between) \<and>
      solProjector s' = (1, Face 1 Null_surface)"
  by (simp add: all_degenerate_def query_between_def toy_eval)

lemma no_faces_reachable: "reachable toy_kernel no_faces"
proof -
  have "prepare toy_kernel [] (ctor toy_kernel) = Inr no_faces"
    by (simp add: prepare_def releaseMemory_def no_faces_def toy_pool_def ctor_def toy_kernel_def)
  then show ?thesis by (rule reachable.prepared [OF reachable.constructed])
qed

section \<open>Results\<close>

text \<open>
  Claim C1, as amended. On a valid non-empty pool \<open>compute\<close> returns, having performed
  the projection of the query point on every projector of the pool. If \<open>isDone\<close> is true
  afterwards, the stored entry is an entry of the pool whose projector converged,
  \<open>solutionPoint\<close> is that projector's nearest point, and no converged projector of the
  pool reports a strictly smaller lower distance; the stored entry's lower distance is
  \<open>\<le>\<close> that of every other converged projector whenever neither of the two distances is
  NaN.
\<close>

theorem selected_distance_is_minimal:
  assumes v: "pool_valid s" and ne: "projectors s \<noteq> []"
  shows "\<exists>s'. compute K point s = Inr s' \<and> projectors s' = projectors s \<and>
           (\<forall>e\<in>set (projectors s). \<forall>c. heap s (fst e) = Some c \<longrightarrow>
              heap s' (fst e) = Some (Perform K c point)) \<and>
           (isDone K s' = Inr True \<longrightarrow>
              (\<exists>p. heap s' (fst (solProjector s')) = Some p \<and> has_solution K p \<and>
                 solProjector s' \<in> set (projectors s') \<and>
                 solutionPoint K s' = Inr (NearestPoint K p) \<and>
                 (\<forall>e\<in>set (projectors s'). \<forall>p'. heap s' (fst e) = Some p' \<and> has_solution K p' \<longrightarrow>
                    \<not> dlt (LowerDistance K p') (LowerDistance K p) \<and>
                    (\<not> is_nan (LowerDistance K p) \<and> \<not> is_nan (LowerDistance K p') \<longrightarrow>
                       dle (LowerDistance K p) (LowerDistance K p')))))"
proof -
  obtain s' where c: "compute K point s = Inr s'"
    using compute_returns [OF v ne] by blast
  obtain r cs where o: "r < length (projectors s')" "length cs = length (projectors s')"
      "projectors s' = projectors s"
      "solProjector s' = projectors s' ! r"
      "\<forall>j<length cs. fst (projectors s' ! j) \<noteq> 0 \<and> heap s' (fst (projectors s' ! j)) = Some (cs ! j)"
      "\<forall>j<length cs. \<not> dlt (proj_dist K (cs ! j)) (proj_dist K (cs ! r))"
    using compute_outcome [OF v c] by blast
  let ?p = "cs ! r"
  have st: "fst (solProjector s') \<noteq> 0" "heap s' (fst (solProjector s')) = Some ?p"
    using o(1,2,4,5) by auto
  have mem: "solProjector s' \<in> set (projectors s')"
    using o(1,4) by simp
  have re: "\<forall>e\<in>set (projectors s). \<forall>c. heap s (fst e) = Some c \<longrightarrow>
              heap s' (fst e) = Some (Perform K c point)"
    using v c by (rule compute_reprojects)
  have sel: "isDone K s' = Inr True \<longrightarrow>
              (\<exists>p. heap s' (fst (solProjector s')) = Some p \<and> has_solution K p \<and>
                 solProjector s' \<in> set (projectors s') \<and>
                 solutionPoint K s' = Inr (NearestPoint K p) \<and>
                 (\<forall>e\<in>set (projectors s'). \<forall>p'. heap s' (fst e) = Some p' \<and> has_solution K p' \<longrightarrow>
                    \<not> dlt (LowerDistance K p') (LowerDistance K p) \<and>
                    (\<not> is_nan (LowerDistance K p) \<and> \<not> is_nan (LowerDistance K p') \<longrightarrow>
                       dle (LowerDistance K p) (LowerDistance K p'))))"
  proof
    assume d: "isDone K s' = Inr True"
    have hs: "has_solution K ?p"
      using isDone_stored [OF st, of K] d by simp
    have sp: "solutionPoint K s' = Inr (NearestPoint K ?p)"
      using d st by (simp add: solutionPoint_def deref_def)
    have mn: "\<forall>e\<in>set (projectors s'). \<forall>p'. heap s' (fst e) = Some p' \<and> has_solution K p' \<longrightarrow>
                \<not> dlt (LowerDistance K p') (LowerDistance K ?p) \<and>
                (\<not> is_nan (LowerDistance K ?p) \<and> \<not> is_nan (LowerDistance K p') \<longrightarrow>
                   dle (LowerDistance K ?p) (LowerDistance K p'))"
    proof (intro ballI allI impI)
      fix e p' assume e: "e \<in> set (projectors s')"
        and p': "heap s' (fst e) = Some p' \<and> has_solution K p'"
      obtain j where j: "j < length (projectors s')" "projectors s' ! j = e"
        using e by (auto simp: in_set_conv_nth)
      have "cs ! j = p'" using j o(2,5) p' by auto
      then have "\<not> dlt (proj_dist K p') (proj_dist K ?p)" using o(6) j(1) o(2) by auto
      then have nl: "\<not> dlt (LowerDistance K p') (LowerDistance K ?p)"
        using hs p' by (simp add: proj_dist_def)
      show "\<not> dlt (LowerDistance K p') (LowerDistance K ?p) \<and>
                (\<not> is_nan (LowerDistance K ?p) \<and> \<not> is_nan (LowerDistance K p') \<longrightarrow>
                   dle (LowerDistance K ?p) (LowerDistance K p'))"
        using nl dlt_not_le by blast
    qed
    show "\<exists>p. heap s' (fst (solProjector s')) = Some p \<and> has_solution K p \<and>
                 solProjector s' \<in> set (projectors s') \<and>
                 solutionPoint K s' = Inr (NearestPoint K p) \<and>
                 (\<forall>e\<in>set (projectors s'). \<forall>p'. heap s' (fst e) = Some p' \<and> has_solution K p' \<longrightarrow>
                    \<not> dlt (LowerDistance K p') (LowerDistance K p) \<and>
                    (\<not> is_nan (LowerDistance K p) \<and> \<not> is_nan (LowerDistance K p') \<longrightarrow>
                       dle (LowerDistance K p) (LowerDistance K p')))"
      by (rule exI [of _ ?p]) (intro conjI st(2) hs mem sp mn)
  qed
  show ?thesis
    by (rule exI [of _ s']) (intro conjI c o(3) re sel)
qed

theorem selected_distance_is_minimal_witness:
  "pool_valid two_squares \<and> projectors two_squares \<noteq> [] \<and>
   (\<exists>s'. compute toy_kernel query_between two_squares = Inr s' \<and>
      isDone toy_kernel s' = Inr True \<and>
      solProjector s' = (1, Face 1 (Plane_z 0)) \<and>
      solutionPoint toy_kernel s' = Inr (Finite (1 / 2), Finite (1 / 2), Finite 0) \<and>
      (\<exists>p p'. heap s' 1 = Some p \<and> heap s' 2 = Some p' \<and>
         LowerDistance toy_kernel p = Finite 3 \<and> LowerDistance toy_kernel p' = Finite 7 \<and>
         has_solution toy_kernel p' \<and>
         dle (LowerDistance toy_kernel p) (LowerDistance toy_kernel p')))"
proof -
  have v: "pool_valid two_squares"
    by (simp add: two_squares_def toy_eval)
  have ne: "projectors two_squares \<noteq> []"
    by (simp add: two_squares_def toy_pool_def ctor_def)
  obtain s' where c: "compute toy_kernel query_between two_squares = Inr s'"
    and i: "isDone toy_kernel s' = Inr True \<longrightarrow>
              (\<exists>p. heap s' (fst (solProjector s')) = Some p \<and> has_solution toy_kernel p \<and>
                 solProjector s' \<in> set (projectors s') \<and>
                 solutionPoint toy_kernel s' = Inr (NearestPoint toy_kernel p) \<and>
                 (\<forall>e\<in>set (projectors s'). \<forall>p'. heap s' (fst e) = Some p' \<and> has_solution toy_kernel p' \<longrightarrow>
                    \<not> dlt (LowerDistance toy_kernel p') (LowerDistance toy_kernel p) \<and>
                    (\<not> is_nan (LowerDistance toy_kernel p) \<and> \<not> is_nan (LowerDistance toy_kernel p') \<longrightarrow>
                       dle (LowerDistance toy_kernel p) (LowerDistance toy_kernel p'))))"
    using selected_distance_is_minimal [OF v ne, of toy_kernel query_between] by blast
  have s': "isDone toy_kernel s' = Inr True"
      "solProjector s' = (1, Face 1 (Plane_z 0))"
      "projectors s' = [(1, Face 1 (Plane_z 0)), (2, Face 2 (Plane_z 10))]"
      "heap s' 1 = Some (toy_project (Plane_z 0) query_between)"
      "heap s' 2 = Some (toy_project (Plane_z 10) query_between)"
    using c by (auto simp: two_squares_def query_between_def toy_eval)
  obtain p where p: "heap s' (fst (solProjector s')) = Some p"
      "solutionPoint toy_kernel s' = Inr (NearestPoint toy_kernel p)"
      "\<forall>e\<in>set (projectors s'). \<forall>p'. heap s' (fst e) = Some p' \<and> has_solution toy_kernel p' \<longrightarrow>
              \<not> dlt (LowerDistance toy_kernel p') (LowerDistance toy_kernel p) \<and>
              (\<not> is_nan (LowerDistance toy_kernel p) \<and> \<not> is_nan (LowerDistance toy_kernel p') \<longrightarrow>
                 dle (LowerDistance toy_kernel p) (LowerDistance toy_kernel p'))"
    using i s'(1) by blast
  let ?p' = "toy_project (Plane_z 10) query_between"
  have pe: "p = toy_project (Plane_z 0) query_between" using p(1) s'(2,4) by simp
  have h: "has_solution toy_kernel ?p'"
    by (simp add: has_solution_def toy_kernel_def query_between_def)
  have d1: "LowerDistance toy_kernel p = Finite 3"
    by (simp add: pe toy_kernel_def query_between_def)
  have d2: "LowerDistance toy_kernel ?p' = Finite 7"
    by (simp add: toy_kernel_def query_between_def)
  have "dle (LowerDistance toy_kernel p) (LowerDistance toy_kernel ?p')"
    using p(3) s'(3,5) h d1 d2 by simp
  moreover have "solutionPoint toy_kernel s' = Inr (Finite (1 / 2), Finite (1 / 2), Finite 0)"
    using p(2) by (simp add: pe toy_kernel_def query_between_def)
  ultimately show ?thesis using v ne c s' pe h d1 d2 by blast
qed

text \<open>
  The claim as stated fails when a projector reports NaN: the plane \<open>x = 0\<close> followed by
  the plane \<open>z = 0\<close>, queried at \<open>(NaN, 0, 3)\<close>. Both projectors converge, the first with
  lower distance NaN, the second with 3. No comparison with NaN is true, so the first
  entry stays selected, \<open>isDone\<close> is true, and its distance is not \<open>\<le>\<close> the other's.
\<close>

theorem selected_distance_is_minimal_counterexample:
  "pool_valid wall_then_floor \<and>
   compute toy_kernel nan_point wall_then_floor = Inr wall_then_floor_nan \<and>
   isDone toy_kernel wall_then_floor_nan = Inr True \<and>
   solProjector wall_then_floor_nan = (1, Face 1 (Plane_x 0)) \<and>
   projectors wall_then_floor_nan = [(1, Face 1 (Plane_x 0)), (2, Face 2 (Plane_z 0))] \<and>
   heap wall_then_floor_nan 1 = Some (toy_project (Plane_x 0) nan_point) \<and>
   heap wall_then_floor_nan 2 = Some (toy_project (Plane_z 0) nan_point) \<and>
   has_solution toy_kernel (toy_project (Plane_z 0) nan_point) \<and>
   LowerDistance toy_kernel (toy_project (Plane_x 0) nan_point) = NaN \<and>
   LowerDistance toy_kernel (toy_project (Plane_z 0) nan_point) = Finite 3 \<and>
   \<not> dle (LowerDistance toy_kernel (toy_project (Plane_x 0) nan_point))
          (LowerDistance toy_kernel (toy_project (Plane_z 0) nan_point))"
  by (simp add: wall_then_floor_def wall_then_floor_nan_def nan_point_def
      reproject_def fun_eq_iff toy_eval)

text \<open>
  Claim C2, as amended. On a valid non-empty pool \<open>compute\<close> returns. If \<open>isDone\<close> is
  true afterwards, some projector of the pool converged with a candidate. The converse
  needs every converged projector to report a lower distance strictly below
  \<^verbatim>\<open>std::numeric_limits<double>::max()\<close>, the value under which failed projectors are
  compared; then \<open>isDone\<close> is true exactly when some projector converged.
\<close>

theorem isDone_iff_some_converged:
  assumes v: "pool_valid s" and ne: "projectors s \<noteq> []"
  shows "\<exists>s'. compute K point s = Inr s' \<and>
           (isDone K s' = Inr True \<longrightarrow> (\<exists>e\<in>set (projectors s'). converged K s' e)) \<and>
           (distances_below_max K s' \<longrightarrow>
              isDone K s' = Inr (\<exists>e\<in>set (projectors s'). converged K s' e))"
proof -
  obtain s' where c: "compute K point s = Inr s'"
    using compute_returns [OF v ne] by blast
  obtain r cs where o: "r < length (projectors s')" "length cs = length (projectors s')"
      "solProjector s' = projectors s' ! r"
      "\<forall>j<length cs. fst (projectors s' ! j) \<noteq> 0 \<and> heap s' (fst (projectors s' ! j)) = Some (cs ! j)"
      "\<forall>j<length cs. \<not> dlt (proj_dist K (cs ! j)) (proj_dist K (cs ! r))"
    using compute_outcome [OF v c] by blast
  have st: "fst (solProjector s') \<noteq> 0" "heap s' (fst (solProjector s')) = Some (cs ! r)"
    using o(1,2,3,4) by auto
  have dn: "isDone K s' = Inr (has_solution K (cs ! r))"
    using isDone_stored [OF st] .
  have sel: "converged K s' (solProjector s') = has_solution K (cs ! r)"
    using st(2) by (rule converged_nth)
  have fwd: "isDone K s' = Inr True \<longrightarrow> (\<exists>e\<in>set (projectors s'). converged K s' e)"
  proof
    assume "isDone K s' = Inr True"
    then have "converged K s' (projectors s' ! r)" using dn sel o(3) by simp
    then show "\<exists>e\<in>set (projectors s'). converged K s' e" using o(1) nth_mem by blast
  qed
  have bwd: "distances_below_max K s' \<longrightarrow>
              isDone K s' = Inr (\<exists>e\<in>set (projectors s'). converged K s' e)"
  proof
    assume b: "distances_below_max K s'"
    have "(\<exists>e\<in>set (projectors s'). converged K s' e) \<longrightarrow> has_solution K (cs ! r)"
    proof
      assume "\<exists>e\<in>set (projectors s'). converged K s' e"
      then obtain e where e: "e \<in> set (projectors s')" "converged K s' e" by blast
      then obtain j where j: "j < length (projectors s')" "projectors s' ! j = e"
        by (auto simp: in_set_conv_nth)
      have hj: "heap s' (fst e) = Some (cs ! j)" using o(2,4) j by auto
      then have hs: "has_solution K (cs ! j)" using e(2) converged_nth by metis
      have "dlt (LowerDistance K (cs ! j)) DBL_MAX"
        using below_max_entry [OF b e(1) hj hs] .
      then show "has_solution K (cs ! r)"
        using selected_converged_if_any [OF o(1,2,5) j(1) hs] by blast
    qed
    moreover have "has_solution K (cs ! r) \<longrightarrow> (\<exists>e\<in>set (projectors s'). converged K s' e)"
      using fwd dn by simp
    ultimately have "has_solution K (cs ! r) = (\<exists>e\<in>set (projectors s'). converged K s' e)"
      by blast
    then show "isDone K s' = Inr (\<exists>e\<in>set (projectors s'). converged K s' e)"
      using dn by simp
  qed
  show ?thesis using c fwd bwd by blast
qed

theorem isDone_iff_some_converged_witness:
  "pool_valid two_squares \<and> projectors two_squares \<noteq> [] \<and>
   (\<exists>s'. compute toy_kernel query_between two_squares = Inr s' \<and>
      distances_below_max toy_kernel s' \<and>
      converged toy_kernel s' (1, Face 1 (Plane_z 0)) \<and>
      isDone toy_kernel s' = Inr True)"
proof -
  have v: "pool_valid two_squares"
    by (simp add: two_squares_def toy_eval)
  have ne: "projectors two_squares \<noteq> []"
    by (simp add: two_squares_def toy_pool_def ctor_def)
  obtain s' where s': "compute toy_kernel query_between two_squares = Inr s'"
     "distances_below_max toy_kernel s' \<longrightarrow>
              isDone toy_kernel s' = Inr (\<exists>e\<in>set (projectors s'). converged toy_kernel s' e)"
    using isDone_iff_some_converged [OF v ne, of toy_kernel query_between] by blast
  have ev: "distances_below_max toy_kernel s' \<and> converged toy_kernel s' (1, Face 1 (Plane_z 0)) \<and>
      (1, Face 1 (Plane_z 0)) \<in> set (projectors s')"
    using s'(1) by (auto simp: two_squares_def query_between_def distances_below_max_def toy_eval)
  then have "isDone toy_kernel s' = Inr True" using s'(2) by auto
  then show ?thesis using v ne s'(1) ev by blast
qed

text \<open>
  The claim as stated fails when a lower distance overflows: a degenerate face followed by
  the plane \<open>z = 0\<close>, queried at \<open>(0, 0, 10\<^sup>2\<^sup>0\<^sup>0)\<close>. The plane's projector converges with
  an infinite lower distance, which is not below the maximum the failed first entry is
  compared under; the first entry stays selected and \<open>isDone\<close> is false.
\<close>

theorem isDone_iff_some_converged_counterexample:
  "pool_valid degenerate_then_plane \<and>
   projectors degenerate_then_plane = [(1, Face 1 Null_surface), (2, Face 2 (Plane_z 0))] \<and>
   compute toy_kernel far_point degenerate_then_plane = Inr degenerate_then_plane_far \<and>
   projectors degenerate_then_plane_far = [(1, Face 1 Null_surface), (2, Face 2 (Plane_z 0))] \<and>
   converged toy_kernel degenerate_then_plane_far (2, Face 2 (Plane_z 0)) \<and>
   isDone toy_kernel degenerate_then_plane_far = Inr False"
  by (simp add: degenerate_then_plane_def degenerate_then_plane_far_def far_point_def
      reproject_def fun_eq_iff toy_eval)

text \<open>
  Claim C3, as amended. A projector that did not converge, or converged without a
  candidate, is compared under \<^verbatim>\<open>std::numeric_limits<double>::max()\<close>, the largest finite
  double. When every converged projector reports a lower distance strictly below that
  value, a failed entry is stored only if every entry failed. When every entry of a
  non-empty pool fails, the first entry is stored, with a non-null pointer, and \<open>isDone\<close>
  is false.
\<close>

theorem failed_entry_compared_as_max:
  assumes v: "pool_valid s" and ne: "projectors s \<noteq> []"
  shows "(\<forall>p. \<not> has_solution K p \<longrightarrow> proj_dist K p = DBL_MAX) \<and>
         (\<exists>s'. compute K point s = Inr s' \<and> solProjector s' \<in> set (projectors s') \<and>
            (distances_below_max K s' \<longrightarrow> \<not> converged K s' (solProjector s') \<longrightarrow>
               (\<forall>e\<in>set (projectors s'). \<not> converged K s' e)) \<and>
            ((\<forall>e\<in>set (projectors s'). \<not> converged K s' e) \<longrightarrow>
               isDone K s' = Inr False \<and> solProjector s' = hd (projectors s') \<and>
               fst (solProjector s') \<noteq> 0))"
proof -
  obtain s' where c: "compute K point s = Inr s'"
    using compute_returns [OF v ne] by blast
  obtain r cs where o: "r < length (projectors s')" "length cs = length (projectors s')"
      "solProjector s' = projectors s' ! r"
      "\<forall>j<length cs. fst (projectors s' ! j) \<noteq> 0 \<and> heap s' (fst (projectors s' ! j)) = Some (cs ! j)"
      "\<forall>j<length cs. \<not> dlt (proj_dist K (cs ! j)) (proj_dist K (cs ! r))"
      "\<forall>j<r. \<not> is_nan (proj_dist K (cs ! j)) \<longrightarrow> dlt (proj_dist K (cs ! r)) (proj_dist K (cs ! j))"
    using compute_outcome [OF v c] by blast
  have st: "fst (solProjector s') \<noteq> 0" "heap s' (fst (solProjector s')) = Some (cs ! r)"
    using o(1,2,3,4) by auto
  have dn: "isDone K s' = Inr (has_solution K (cs ! r))"
    using isDone_stored [OF st] .
  have sel: "converged K s' (solProjector s') = has_solution K (cs ! r)"
    using st(2) by (rule converged_nth)
  have mem: "solProjector s' \<in> set (projectors s')" using o(1,3) by simp
  have a: "distances_below_max K s' \<longrightarrow> \<not> converged K s' (solProjector s') \<longrightarrow>
               (\<forall>e\<in>set (projectors s'). \<not> converged K s' e)"
  proof (intro impI ballI)
    fix e
    assume b: "distances_below_max K s'" and ns: "\<not> converged K s' (solProjector s')"
      and e: "e \<in> set (projectors s')"
    obtain j where j: "j < length (projectors s')" "projectors s' ! j = e"
      using e by (auto simp: in_set_conv_nth)
    have hj: "heap s' (fst e) = Some (cs ! j)" using o(2,4) j by auto
    show "\<not> converged K s' e"
    proof
      assume "converged K s' e"
      then have hs: "has_solution K (cs ! j)" using hj converged_nth by metis
      have "dlt (LowerDistance K (cs ! j)) DBL_MAX"
        using below_max_entry [OF b e hj hs] .
      then have "has_solution K (cs ! r)"
        using selected_converged_if_any [OF o(1,2,5) j(1) hs] by blast
      then show False using ns sel by simp
    qed
  qed
  have b: "(\<forall>e\<in>set (projectors s'). \<not> converged K s' e) \<longrightarrow>
               isDone K s' = Inr False \<and> solProjector s' = hd (projectors s') \<and>
               fst (solProjector s') \<noteq> 0"
  proof
    assume all: "\<forall>e\<in>set (projectors s'). \<not> converged K s' e"
    have nohs: "\<And>j. j < length (projectors s') \<Longrightarrow> \<not> has_solution K (cs ! j)"
    proof -
      fix j assume j: "j < length (projectors s')"
      then have "\<not> converged K s' (projectors s' ! j)" using all by simp
      moreover have "heap s' (fst (projectors s' ! j)) = Some (cs ! j)" using o(2,4) j by auto
      ultimately show "\<not> has_solution K (cs ! j)" using converged_nth by metis
    qed
    have "r = 0"
    proof (rule ccontr)
      assume "r \<noteq> 0"
      then have z: "0 < r" by simp
      have "0 < length (projectors s')" using z o(1) by linarith
      then have "\<not> has_solution K (cs ! 0)" by (rule nohs)
      then have k0: "proj_dist K (cs ! 0) = DBL_MAX" by (rule proj_dist_failed)
      have kr: "proj_dist K (cs ! r) = DBL_MAX"
        using nohs [OF o(1)] by (rule proj_dist_failed)
      have "\<not> is_nan (proj_dist K (cs ! 0))" using k0 DBL_MAX_not_nan by simp
      then have "dlt (proj_dist K (cs ! r)) (proj_dist K (cs ! 0))"
        using o(6) z by blast
      then show False using k0 kr dlt_irrefl by simp
    qed
    then have "solProjector s' = hd (projectors s')"
      using o(1,3) by (simp add: hd_conv_nth)
    then show "isDone K s' = Inr False \<and> solProjector s' = hd (projectors s') \<and>
               fst (solProjector s') \<noteq> 0"
      using dn nohs [OF o(1)] st(1) by simp
  qed
  have first: "\<forall>p. \<not> has_solution K p \<longrightarrow> proj_dist K p = DBL_MAX"
    by (simp add: proj_dist_def)
  have second: "\<exists>s'. compute K point s = Inr s' \<and> solProjector s' \<in> set (projectors s') \<and>
            (distances_below_max K s' \<longrightarrow> \<not> converged K s' (solProjector s') \<longrightarrow>
               (\<forall>e\<in>set (projectors s'). \<not> converged K s' e)) \<and>
            ((\<forall>e\<in>set (projectors s'). \<not> converged K s' e) \<longrightarrow>
               isDone K s' = Inr False \<and> solProjector s' = hd (projectors s') \<and>
               fst (solProjector s') \<noteq> 0)"
    by (rule exI [of _ s']) (intro conjI c mem a b)
  from first second show ?thesis by (rule conjI)
qed

theorem failed_entry_compared_as_max_witness:
  "pool_valid all_degenerate \<and> projectors all_degenerate \<noteq> [] \<and>
   proj_dist toy_kernel (toy_project Null_surface query_between) = DBL_MAX \<and>
   (\<exists>s'. compute toy_kernel query_between all_degenerate = Inr s' \<and>
      distances_below_max toy_kernel s' \<and>
      \<not> converged toy_kernel s' (1, Face 1 Null_surface) \<and>
      \<not> converged toy_kernel s' (2, Face 2 Null_surface) \<and>
      isDone toy_kernel s' = Inr False \<and>
      solProjector s' = (1, Face 1 Null_surface) \<and> fst (solProjector s') \<noteq> 0) \<and>
   pool_valid degenerate_then_plane \<and> projectors degenerate_then_plane \<noteq> [] \<and>
   (\<exists>s'. compute toy_kernel query_between degenerate_then_plane = Inr s' \<and>
      distances_below_max toy_kernel s' \<and>
      \<not> converged toy_kernel s' (1, Face 1 Null_surface) \<and>
      solProjector s' = (2, Face 2 (Plane_z 0)) \<and>
      converged toy_kernel s' (solProjector s'))"
proof -
  have v: "pool_valid all_degenerate"
    by (simp add: all_degenerate_def toy_eval)
  have ne: "projectors all_degenerate \<noteq> []"
    by (simp add: all_degenerate_def toy_pool_def ctor_def)
  have nh: "\<not> has_solution toy_kernel (toy_project Null_surface query_between)"
    by (simp add: has_solution_def toy_kernel_def)
  obtain s' where s': "compute toy_kernel query_between all_degenerate = Inr s'"
     "(\<forall>e\<in>set (projectors s'). \<not> converged toy_kernel s' e) \<longrightarrow>
               isDone toy_kernel s' = Inr False \<and> solProjector s' = hd (projectors s') \<and>
               fst (solProjector s') \<noteq> 0"
     and pd: "\<forall>p. \<not> has_solution toy_kernel p \<longrightarrow> proj_dist toy_kernel p = DBL_MAX"
    using failed_entry_compared_as_max [OF v ne, of toy_kernel query_between] by blast
  have ev: "projectors s' = [(1, Face 1 Null_surface), (2, Face 2 Null_surface)] \<and>
      distances_below_max toy_kernel s' \<and>
      \<not> converged toy_kernel s' (1, Face 1 Null_surface) \<and>
      \<not> converged toy_kernel s' (2, Face 2 Null_surface)"
    using s'(1) by (auto simp: all_degenerate_def query_between_def distances_below_max_def toy_eval)
  then have "isDone toy_kernel s' = Inr False \<and> solProjector s' = (1, Face 1 Null_surface) \<and>
      fst (solProjector s') \<noteq> 0"
    using s'(2) by simp
  then have first: "\<exists>s'. compute toy_kernel query_between all_degenerate = Inr s' \<and>
      distances_below_max toy_kernel s' \<and>
      \<not> converged toy_kernel s' (1, Face 1 Null_surface) \<and>
      \<not> converged toy_kernel s' (2, Face 2 Null_surface) \<and>
      isDone toy_kernel s' = Inr False \<and>
      solProjector s' = (1, Face 1 Null_surface) \<and> fst (solProjector s') \<noteq> 0"
    using s'(1) ev by blast
  have v2: "pool_valid degenerate_then_plane"
    by (simp add: degenerate_then_plane_def toy_eval)
  have ne2: "projectors degenerate_then_plane \<noteq> []"
    by (simp add: degenerate_then_plane_def toy_pool_def ctor_def)
  obtain t where t: "compute toy_kernel query_between degenerate_then_plane = Inr t"
     "distances_below_max toy_kernel t \<longrightarrow> \<not> converged toy_kernel t (solProjector t) \<longrightarrow>
               (\<forall>e\<in>set (projectors t). \<not> converged toy_kernel t e)"
    using failed_entry_compared_as_max [OF v2 ne2, of toy_kernel query_between] by blast
  have ev2: "distances_below_max toy_kernel t" "solProjector t = (2, Face 2 (Plane_z 0))"
      "\<not> converged toy_kernel t (1, Face 1 Null_surface)"
      "converged toy_kernel t (2, Face 2 (Plane_z 0))"
      "(2, Face 2 (Plane_z 0)) \<in> set (projectors t)"
    using t(1)
    by (auto simp: degenerate_then_plane_def query_between_def distances_below_max_def toy_eval)
  have "converged toy_kernel t (solProjector t)"
    using t(2) ev2(1,4,5) by blast
  then have second: "\<exists>s'. compute toy_kernel query_between degenerate_then_plane = Inr s' \<and>
      distances_below_max toy_kernel s' \<and>
      \<not> converged toy_kernel s' (1, Face 1 Null_surface) \<and>
      solProjector s' = (2, Face 2 (Plane_z 0)) \<and>
      converged toy_kernel s' (solProjector s')"
    using t(1) ev2 by blast
  have pdq: "proj_dist toy_kernel (toy_project Null_surface query_between) = DBL_MAX"
    using pd nh by blast
  from v ne pdq first v2 ne2 second show ?thesis by (intro conjI)
qed

text \<open>
  The claim as stated fails on the plane \<open>z = 0\<close> followed by a degenerate face, queried at
  \<open>(0, 0, 10\<^sup>2\<^sup>0\<^sup>0)\<close>: the failed entry is compared under the largest finite double, not
  under infinity, so it compares less than the converged plane, whose lower distance has
  overflowed to infinity, and is selected although an entry converged.
\<close>

theorem failed_entry_compared_as_max_counterexample:
  "pool_valid plane_then_degenerate \<and>
   compute toy_kernel far_point plane_then_degenerate = Inr plane_then_degenerate_far \<and>
   projectors plane_then_degenerate_far = [(1, Face 1 (Plane_z 0)), (2, Face 2 Null_surface)] \<and>
   converged toy_kernel plane_then_degenerate_far (1, Face 1 (Plane_z 0)) \<and>
   \<not> converged toy_kernel plane_then_degenerate_far (2, Face 2 Null_surface) \<and>
   solProjector plane_then_degenerate_far = (2, Face 2 Null_surface) \<and>
   LowerDistance toy_kernel (toy_project (Plane_z 0) far_point) = PlusInf \<and>
   proj_dist toy_kernel (toy_project Null_surface far_point) = DBL_MAX \<and>
   DBL_MAX \<noteq> PlusInf \<and>
   projector_compare toy_kernel (toy_project Null_surface far_point)
     (toy_project (Plane_z 0) far_point)"
  by (simp add: plane_then_degenerate_def plane_then_degenerate_far_def far_point_def
      reproject_def fun_eq_iff toy_eval)

text \<open>
  Claim C4, as amended. An entry is compared under its lower distance when its projector
  converged and under the largest finite double when it failed. On a valid non-empty pool
  \<open>compute\<close> stores the entry at a position \<open>r\<close> such that no entry compares less than
  it and every earlier entry whose distance is not NaN compares strictly greater. When no
  compared distance is NaN, the stored entry's distance is \<open>\<le>\<close> every entry's and no
  earlier entry has the same distance: among the entries that tie for the minimal distance
  the first in pool order is selected. When every entry fails, the first entry of the pool
  is stored. The outcome does not depend on the order in which the projections are
  performed: running them over any rearrangement of the pool leaves the same store.
\<close>

theorem ties_resolve_to_first:
  assumes v: "pool_valid s" and ne: "projectors s \<noteq> []"
  shows "\<exists>s' r cs. compute K point s = Inr s' \<and>
           r < length (projectors s') \<and> length cs = length (projectors s') \<and>
           projectors s' = projectors s \<and>
           solProjector s' = projectors s' ! r \<and>
           (\<forall>j<length cs. heap s' (fst (projectors s' ! j)) = Some (cs ! j)) \<and>
           (\<forall>j<length cs. \<not> dlt (compared_distance K (cs ! j)) (compared_distance K (cs ! r))) \<and>
           (\<forall>j<r. \<not> is_nan (compared_distance K (cs ! j)) \<longrightarrow>
                   dlt (compared_distance K (cs ! r)) (compared_distance K (cs ! j))) \<and>
           ((\<forall>j<length cs. \<not> is_nan (compared_distance K (cs ! j))) \<longrightarrow>
              (\<forall>j<length cs. dle (compared_distance K (cs ! r)) (compared_distance K (cs ! j))) \<and>
              (\<forall>j<length cs. compared_distance K (cs ! j) = compared_distance K (cs ! r) \<longrightarrow> r \<le> j)) \<and>
           ((\<forall>j<length cs. \<not> (IsDone K (cs ! j) \<and> 0 < NbPoints K (cs ! j))) \<longrightarrow> r = 0) \<and>
           (\<forall>es. distinct (map fst es) \<and> set es = set (projectors s) \<longrightarrow>
                   for_each_Perform K point es (heap s) = Inr (heap s'))"
proof -
  obtain s' where c: "compute K point s = Inr s'"
    using compute_returns [OF v ne] by blast
  obtain r cs where o: "r < length (projectors s')" "length cs = length (projectors s')"
      "projectors s' = projectors s"
      "heap s' = reproject K point s"
      "solProjector s' = projectors s' ! r"
      "\<forall>j<length cs. fst (projectors s' ! j) \<noteq> 0 \<and> heap s' (fst (projectors s' ! j)) = Some (cs ! j)"
      "\<forall>j<length cs. \<not> dlt (proj_dist K (cs ! j)) (proj_dist K (cs ! r))"
      "\<forall>j<r. \<not> is_nan (proj_dist K (cs ! j)) \<longrightarrow> dlt (proj_dist K (cs ! r)) (proj_dist K (cs ! j))"
    using compute_outcome [OF v c] by blast
  have st: "\<forall>j<length cs. heap s' (fst (projectors s' ! j)) = Some (cs ! j)"
    using o(6) by blast
  have lo: "\<forall>j<length cs. \<not> dlt (compared_distance K (cs ! j)) (compared_distance K (cs ! r))"
    using o(7) by (simp only: proj_dist_compared)
  have fi: "\<forall>j<r. \<not> is_nan (compared_distance K (cs ! j)) \<longrightarrow>
                   dlt (compared_distance K (cs ! r)) (compared_distance K (cs ! j))"
    using o(8) by (simp only: proj_dist_compared)
  have rl: "r < length cs" using o(1,2) by simp
  have nn: "(\<forall>j<length cs. \<not> is_nan (compared_distance K (cs ! j))) \<longrightarrow>
              (\<forall>j<length cs. dle (compared_distance K (cs ! r)) (compared_distance K (cs ! j))) \<and>
              (\<forall>j<length cs. compared_distance K (cs ! j) = compared_distance K (cs ! r) \<longrightarrow> r \<le> j)"
  proof
    assume a: "\<forall>j<length cs. \<not> is_nan (compared_distance K (cs ! j))"
    have m: "\<forall>j<length cs. dle (compared_distance K (cs ! r)) (compared_distance K (cs ! j))"
    proof (intro allI impI)
      fix j assume j: "j < length cs"
      have "\<not> dlt (compared_distance K (cs ! j)) (compared_distance K (cs ! r))"
        using lo j by blast
      moreover have "\<not> is_nan (compared_distance K (cs ! j))" using a j by blast
      moreover have "\<not> is_nan (compared_distance K (cs ! r))" using a rl by blast
      ultimately show "dle (compared_distance K (cs ! r)) (compared_distance K (cs ! j))"
        using dlt_not_le by blast
    qed
    have t: "\<forall>j<length cs. compared_distance K (cs ! j) = compared_distance K (cs ! r) \<longrightarrow> r \<le> j"
    proof (intro allI impI)
      fix j assume j: "j < length cs"
        and e: "compared_distance K (cs ! j) = compared_distance K (cs ! r)"
      show "r \<le> j"
      proof (rule ccontr)
        assume "\<not> r \<le> j"
        then have jr: "j < r" by simp
        have "\<not> is_nan (compared_distance K (cs ! j))" using a j by blast
        then have "dlt (compared_distance K (cs ! r)) (compared_distance K (cs ! j))"
          using fi jr by blast
        then show False using e dlt_irrefl by simp
      qed
    qed
    from m t show "(\<forall>j<length cs. dle (compared_distance K (cs ! r)) (compared_distance K (cs ! j))) \<and>
              (\<forall>j<length cs. compared_distance K (cs ! j) = compared_distance K (cs ! r) \<longrightarrow> r \<le> j)"
      by (rule conjI)
  qed
  have af: "(\<forall>j<length cs. \<not> (IsDone K (cs ! j) \<and> 0 < NbPoints K (cs ! j))) \<longrightarrow> r = 0"
  proof
    assume a: "\<forall>j<length cs. \<not> (IsDone K (cs ! j) \<and> 0 < NbPoints K (cs ! j))"
    have k: "\<And>j. j < length cs \<Longrightarrow> compared_distance K (cs ! j) = DBL_MAX"
    proof -
      fix j assume "j < length cs"
      then have "\<not> (IsDone K (cs ! j) \<and> 0 < NbPoints K (cs ! j))" using a by blast
      then show "compared_distance K (cs ! j) = DBL_MAX"
        unfolding compared_distance_def by (rule if_not_P)
    qed
    show "r = 0"
    proof (rule ccontr)
      assume "r \<noteq> 0"
      then have z: "0 < r" by simp
      have z': "0 < length cs" using z rl by linarith
      have "\<not> is_nan (compared_distance K (cs ! 0))"
        using k [OF z'] DBL_MAX_not_nan by simp
      then have "dlt (compared_distance K (cs ! r)) (compared_distance K (cs ! 0))"
        using fi z by blast
      then show False using k [OF z'] k [OF rl] dlt_irrefl by simp
    qed
  qed
  have ord: "\<forall>es. distinct (map fst es) \<and> set es = set (projectors s) \<longrightarrow>
                   for_each_Perform K point es (heap s) = Inr (heap s')"
    by (simp add: for_each_Perform_any_order [OF v] o(4))
  show ?thesis
    by (rule exI [of _ s'], rule exI [of _ r], rule exI [of _ cs])
       (intro conjI c o(1) o(2) o(3) o(5) st lo fi nn af ord)
qed

theorem ties_resolve_to_first_witness:
  "pool_valid equidistant \<and> projectors equidistant \<noteq> [] \<and>
   (\<exists>s' r cs. compute toy_kernel query_between equidistant = Inr s' \<and>
      solProjector s' = projectors s' ! r \<and> r = 1 \<and>
      compared_distance toy_kernel (cs ! 0) = Finite 7 \<and>
      compared_distance toy_kernel (cs ! 1) = Finite 3 \<and>
      compared_distance toy_kernel (cs ! 2) = Finite 3 \<and>
      heap s' 1 = Some (cs ! 0) \<and> heap s' 2 = Some (cs ! 1) \<and> heap s' 3 = Some (cs ! 2) \<and>
      dle (compared_distance toy_kernel (cs ! r)) (compared_distance toy_kernel (cs ! 2)) \<and>
      dlt (compared_distance toy_kernel (cs ! r)) (compared_distance toy_kernel (cs ! 0)) \<and>
      for_each_Perform toy_kernel query_between (rev (projectors equidistant)) (heap equidistant)
        = Inr (heap s')) \<and>
   pool_valid all_degenerate \<and> projectors all_degenerate \<noteq> [] \<and>
   (\<exists>s' r cs. compute toy_kernel query_between all_degenerate = Inr s' \<and>
      solProjector s' = projectors s' ! r \<and> r = 0 \<and>
      solProjector s' = (1, Face 1 Null_surface) \<and>
      heap s' 1 = Some (cs ! 0) \<and> heap s' 2 = Some (cs ! 1) \<and>
      compared_distance toy_kernel (cs ! 0) = DBL_MAX \<and>
      compared_distance toy_kernel (cs ! 1) = DBL_MAX)"
proof -
  have v: "pool_valid equidistant"
    by (simp add: equidistant_def toy_eval)
  have ne: "projectors equidistant \<noteq> []"
    by (simp add: equidistant_def toy_pool_def ctor_def)
  obtain s' r cs where t: "compute toy_kernel query_between equidistant = Inr s'"
      "r < length (projectors s')" "length cs = length (projectors s')"
      "solProjector s' = projectors s' ! r"
      "\<forall>j<length cs. heap s' (fst (projectors s' ! j)) = Some (cs ! j)"
      "\<forall>j<r. \<not> is_nan (compared_distance toy_kernel (cs ! j)) \<longrightarrow>
          dlt (compared_distance toy_kernel (cs ! r)) (compared_distance toy_kernel (cs ! j))"
      "(\<forall>j<length cs. \<not> is_nan (compared_distance toy_kernel (cs ! j))) \<longrightarrow>
         (\<forall>j<length cs. dle (compared_distance toy_kernel (cs ! r))
                            (compared_distance toy_kernel (cs ! j))) \<and>
         (\<forall>j<length cs. compared_distance toy_kernel (cs ! j) =
                            compared_distance toy_kernel (cs ! r) \<longrightarrow> r \<le> j)"
      "\<forall>es. distinct (map fst es) \<and> set es = set (projectors equidistant) \<longrightarrow>
                   for_each_Perform toy_kernel query_between es (heap equidistant) = Inr (heap s')"
    using ties_resolve_to_first [OF v ne, of toy_kernel query_between] by blast
  have ev: "projectors s' = [(1, Face 1 (Plane_z 10)), (2, Face 2 (Plane_z 0)), (3, Face 3 (Plane_z 6))]"
      "heap s' 1 = Some (toy_project (Plane_z 10) query_between)"
      "heap s' 2 = Some (toy_project (Plane_z 0) query_between)"
      "heap s' 3 = Some (toy_project (Plane_z 6) query_between)"
      "solProjector s' = (2, Face 2 (Plane_z 0))"
    using equidistant_compute t(1) by auto
  have len: "length cs = 3" using t(3) ev(1) by simp
  have c0: "cs ! 0 = toy_project (Plane_z 10) query_between"
    using t(5) [rule_format, of 0] len ev(1,2) by simp
  have c1: "cs ! 1 = toy_project (Plane_z 0) query_between"
    using t(5) [rule_format, of 1] len ev(1,3) by simp
  have c2: "cs ! 2 = toy_project (Plane_z 6) query_between"
    using t(5) [rule_format, of 2] len ev(1,4) by simp
  have d0: "compared_distance toy_kernel (cs ! 0) = Finite 7"
    by (subst c0) (simp add: query_between_def compared_distance_def toy_kernel_def)
  have d1: "compared_distance toy_kernel (cs ! 1) = Finite 3"
    by (subst c1) (simp add: query_between_def compared_distance_def toy_kernel_def)
  have d2: "compared_distance toy_kernel (cs ! 2) = Finite 3"
    by (subst c2) (simp add: query_between_def compared_distance_def toy_kernel_def)
  have r1: "r = 1"
    using t(2,4) ev(1,5) by (auto simp: less_Suc_eq numeral_3_eq_3)
  have hp: "heap s' 1 = Some (cs ! 0) \<and> heap s' 2 = Some (cs ! 1) \<and> heap s' 3 = Some (cs ! 2)"
    using ev c0 c1 c2 by simp
  have nn: "\<forall>j<length cs. \<not> is_nan (compared_distance toy_kernel (cs ! j))"
  proof (intro allI impI)
    fix j assume "j < length cs"
    then have "j = 0 \<or> j = 1 \<or> j = 2" using len by auto
    then show "\<not> is_nan (compared_distance toy_kernel (cs ! j))"
      using d0 d1 d2 by auto
  qed
  have "\<forall>j<length cs. dle (compared_distance toy_kernel (cs ! r))
                            (compared_distance toy_kernel (cs ! j))"
    using t(7) nn by blast
  then have n2: "dle (compared_distance toy_kernel (cs ! r)) (compared_distance toy_kernel (cs ! 2))"
    using len by simp
  have "\<not> is_nan (compared_distance toy_kernel (cs ! 0))" by (subst d0) simp
  then have l0: "dlt (compared_distance toy_kernel (cs ! r)) (compared_distance toy_kernel (cs ! 0))"
    using t(6) r1 by simp
  have "distinct (rev (map fst (projectors equidistant)))"
    using v by (simp add: pool_valid_def)
  then have "distinct (map fst (rev (projectors equidistant)))"
    by (simp only: rev_map)
  moreover have "set (rev (projectors equidistant)) = set (projectors equidistant)"
    by (rule set_rev)
  ultimately have ro: "for_each_Perform toy_kernel query_between (rev (projectors equidistant))
      (heap equidistant) = Inr (heap s')"
    using t(8) by blast
  have first: "\<exists>s' r cs. compute toy_kernel query_between equidistant = Inr s' \<and>
      solProjector s' = projectors s' ! r \<and> r = 1 \<and>
      compared_distance toy_kernel (cs ! 0) = Finite 7 \<and>
      compared_distance toy_kernel (cs ! 1) = Finite 3 \<and>
      compared_distance toy_kernel (cs ! 2) = Finite 3 \<and>
      heap s' 1 = Some (cs ! 0) \<and> heap s' 2 = Some (cs ! 1) \<and> heap s' 3 = Some (cs ! 2) \<and>
      dle (compared_distance toy_kernel (cs ! r)) (compared_distance toy_kernel (cs ! 2)) \<and>
      dlt (compared_distance toy_kernel (cs ! r)) (compared_distance toy_kernel (cs ! 0)) \<and>
      for_each_Perform toy_kernel query_between (rev (projectors equidistant)) (heap equidistant)
        = Inr (heap s')"
    using t(1,4) r1 d0 d1 d2 hp n2 l0 ro by blast
  have v2: "pool_valid all_degenerate"
    by (simp add: all_degenerate_def toy_eval)
  have ne2: "projectors all_degenerate \<noteq> []"
    by (simp add: all_degenerate_def toy_pool_def ctor_def)
  obtain u q ds where w: "compute toy_kernel query_between all_degenerate = Inr u"
      "length ds = length (projectors u)"
      "solProjector u = projectors u ! q"
      "\<forall>j<length ds. heap u (fst (projectors u ! j)) = Some (ds ! j)"
      "(\<forall>j<length ds. \<not> (IsDone toy_kernel (ds ! j) \<and> 0 < NbPoints toy_kernel (ds ! j))) \<longrightarrow> q = 0"
    using ties_resolve_to_first [OF v2 ne2, of toy_kernel query_between] by blast
  have ev2: "projectors u = [(1, Face 1 Null_surface), (2, Face 2 Null_surface)]"
      "heap u 1 = Some (toy_project Null_surface query_between)"
      "heap u 2 = Some (toy_project Null_surface query_between)"
      "solProjector u = (1, Face 1 Null_surface)"
    using all_degenerate_stored w(1) by auto
  have len2: "length ds = 2" using w(2) ev2(1) by simp
  have e0: "ds ! 0 = toy_project Null_surface query_between"
    using w(4) [rule_format, of 0] len2 ev2(1,2) by simp
  have e1: "ds ! 1 = toy_project Null_surface query_between"
    using w(4) [rule_format, of 1] len2 ev2(1,3) by simp
  have f0: "\<not> (IsDone toy_kernel (ds ! 0) \<and> 0 < NbPoints toy_kernel (ds ! 0))"
    by (subst e0, subst e0) (simp add: toy_kernel_def)
  have f1: "\<not> (IsDone toy_kernel (ds ! 1) \<and> 0 < NbPoints toy_kernel (ds ! 1))"
    by (subst e1, subst e1) (simp add: toy_kernel_def)
  have af: "\<forall>j<length ds. \<not> (IsDone toy_kernel (ds ! j) \<and> 0 < NbPoints toy_kernel (ds ! j))"
  proof (intro allI impI)
    fix j assume "j < length ds"
    then have "j = 0 \<or> j = 1" using len2 by auto
    then show "\<not> (IsDone toy_kernel (ds ! j) \<and> 0 < NbPoints toy_kernel (ds ! j))"
      using f0 f1 by auto
  qed
  have q0: "q = 0" using w(5) af by blast
  have m0: "compared_distance toy_kernel (ds ! 0) = DBL_MAX"
    using f0 unfolding compared_distance_def by (rule if_not_P)
  have m1: "compared_distance toy_kernel (ds ! 1) = DBL_MAX"
    using f1 unfolding compared_distance_def by (rule if_not_P)
  have hq: "heap u 1 = Some (ds ! 0) \<and> heap u 2 = Some (ds ! 1)"
    using ev2 e0 e1 by simp
  have second: "\<exists>s' r cs. compute toy_kernel query_between all_degenerate = Inr s' \<and>
      solProjector s' = projectors s' ! r \<and> r = 0 \<and>
      solProjector s' = (1, Face 1 Null_surface) \<and>
      heap s' 1 = Some (cs ! 0) \<and> heap s' 2 = Some (cs ! 1) \<and>
      compared_distance toy_kernel (cs ! 0) = DBL_MAX \<and>
      compared_distance toy_kernel (cs ! 1) = DBL_MAX"
    using w(1,3) q0 ev2(4) hq m0 m1 by blast
  from v ne first v2 ne2 second show ?thesis by (intro conjI)
qed

text \<open>
  The claim as stated fails when a projector reports NaN: the plane \<open>x = 0\<close> followed by
  the planes \<open>z = 0\<close> and \<open>z = 6\<close>, queried at \<open>(NaN, 0, 3)\<close>. The second and third entries
  tie at the minimal distance 3, but nothing compares less than the NaN of the first entry,
  which stays selected.
\<close>

theorem ties_resolve_to_first_counterexample:
  "pool_valid wall_then_floors \<and>
   compute toy_kernel nan_point wall_then_floors = Inr wall_then_floors_nan \<and>
   projectors wall_then_floors_nan =
     [(1, Face 1 (Plane_x 0)), (2, Face 2 (Plane_z 0)), (3, Face 3 (Plane_z 6))] \<and>
   heap wall_then_floors_nan 1 = Some (toy_project (Plane_x 0) nan_point) \<and>
   heap wall_then_floors_nan 2 = Some (toy_project (Plane_z 0) nan_point) \<and>
   heap wall_then_floors_nan 3 = Some (toy_project (Plane_z 6) nan_point) \<and>
   compared_distance toy_kernel (toy_project (Plane_x 0) nan_point) = NaN \<and>
   compared_distance toy_kernel (toy_project (Plane_z 0) nan_point) = Finite 3 \<and>
   compared_distance toy_kernel (toy_project (Plane_z 6) nan_point) = Finite 3 \<and>
   solProjector wall_then_floors_nan = (1, Face 1 (Plane_x 0)) \<and>
   solProjector wall_then_floors_nan \<noteq> (2, Face 2 (Plane_z 0))"
  by (simp add: wall_then_floors_def wall_then_floors_nan_def nan_point_def
      reproject_def fun_eq_iff compared_distance_def toy_eval)

text \<open>
  Claim C5: the code departs from it. On an empty pool, which a projector has after
  default construction and after \<open>prepare\<close> on a shape without faces, the minimum selection
  of \<open>compute\<close> yields the end iterator and the program stops at its own assertion
  \<^verbatim>\<open>always_a_minimum\<close> instead of leaving \<open>isDone\<close> false. Before the call \<open>isDone\<close> is
  false on that projector.
\<close>

theorem compute_on_empty_pool_faults:
  "ctor_faces toy_kernel [] = Inr no_faces \<and>
   projectors no_faces = [] \<and>
   reachable toy_kernel no_faces \<and>
   isDone toy_kernel no_faces = Inr False \<and>
   compute toy_kernel query_between no_faces = Inl Assert_always_a_minimum \<and>
   compute toy_kernel query_between (ctor toy_kernel) = Inl Assert_always_a_minimum"
  using no_faces_reachable
  by (simp add: ctor_faces_def prepare_def releaseMemory_def no_faces_def toy_eval)

text \<open>
  Claim C6. When the pool is not empty, the minimum selection of \<open>compute\<close> yields an
  element, whatever the store: \<open>min_element\<close> does not return the end iterator and
  \<open>compute\<close> never stops at its assertion. On a valid pool \<open>compute\<close> returns, and
  the entry it stores is an entry of the pool.
\<close>

theorem min_selection_never_empty:
  assumes "projectors s \<noteq> []"
  shows "min_element (compare_entries K h) (projectors s) \<noteq> Inr None \<and>
         compute K point s \<noteq> Inl Assert_always_a_minimum \<and>
         (pool_valid s \<longrightarrow>
            (\<exists>s'. compute K point s = Inr s' \<and> solProjector s' \<in> set (projectors s)))"
proof (intro conjI impI)
  show "min_element (compare_entries K h) (projectors s) \<noteq> Inr None"
    using assms by (rule min_element_nonempty)
  show "compute K point s \<noteq> Inl Assert_always_a_minimum"
    using assms by (rule compute_not_assert)
next
  assume v: "pool_valid s"
  obtain r where "r < length (projectors s)"
    "compute K point s = Inr (s\<lparr>heap := reproject K point s, solProjector := projectors s ! r\<rparr>)"
    using compute_selection [OF v assms, of K point] by blast
  then show "\<exists>s'. compute K point s = Inr s' \<and> solProjector s' \<in> set (projectors s)"
    by simp
qed

theorem min_selection_never_empty_witness:
  "projectors two_squares \<noteq> [] \<and> pool_valid two_squares \<and>
   min_element (compare_entries toy_kernel (heap two_squares)) (projectors two_squares) \<noteq> Inr None \<and>
   compute toy_kernel query_between two_squares \<noteq> Inl Assert_always_a_minimum \<and>
   (\<exists>s'. compute toy_kernel query_between two_squares = Inr s' \<and>
         solProjector s' \<in> set (projectors two_squares))"
proof -
  have ne: "projectors two_squares \<noteq> []"
    by (simp add: two_squares_def toy_pool_def ctor_def)
  have v: "pool_valid two_squares"
    by (simp add: two_squares_def toy_eval)
  show ?thesis
    using ne v min_selection_never_empty [OF ne, of toy_kernel "heap two_squares" query_between]
    by blast
qed

text \<open>
  Claim C7: the code departs from it. \<open>prepare\<close> does replace the pool, releases every
  projector of the previous pool and allocates fresh ones for the faces of the new shape
  (\<open>prepare_replaces_pool\<close> above), but \<open>releaseMemory\<close> leaves the stored solution
  projector as it was. After \<open>prepare\<close>, \<open>compute\<close>, \<open>prepare\<close> the stored pointer refers
  to a projector that has been deleted: state of the previous generation is still
  reachable, and \<open>isDone\<close> and every accessor read through the dangling pointer.
\<close>

theorem stale_solution_after_prepare:
  "\<exists>s1 s2 s3. ctor_faces toy_kernel [Face 1 (Plane_z 0)] = Inr s1 \<and>
      compute toy_kernel query_between s1 = Inr s2 \<and>
      isDone toy_kernel s2 = Inr True \<and>
      prepare toy_kernel [Face 2 (Plane_z 10)] s2 = Inr s3 \<and>
      projectors s3 = [(2, Face 2 (Plane_z 10))] \<and>
      solProjector s3 = (1, Face 1 (Plane_z 0)) \<and>
      heap s3 1 = None \<and>
      isDone toy_kernel s3 = Inl Dangling_dereference \<and>
      solutionFace toy_kernel s3 = Inl Dangling_dereference \<and>
      solutionPoint toy_kernel s3 = Inl Dangling_dereference \<and>
      solutionUV toy_kernel s3 = Inl Dangling_dereference \<and>
      solutionNormal toy_kernel s3 = Inl Dangling_dereference"
  by (simp add: ctor_faces_def prepare_def releaseMemory_def query_between_def toy_eval)

text \<open>
  Claim C8. \<open>compute\<close> performs the projection again on every projector of the pool;
  provided performing a projection on a projector object gives the same object whatever
  was performed on it before (the kernel's \<^verbatim>\<open>Perform\<close> is a full re-projection), the
  outcome of \<open>compute\<close> for a point after any sequence of earlier queries is the very
  state \<open>compute\<close> gives on the untouched pool: the same stored entry, hence the same
  face, point and parameters.
\<close>

theorem compute_independent_of_history:
  assumes v: "pool_valid s" and ne: "projectors s \<noteq> []"
    and H: "\<forall>c q. Perform K (Perform K c q) point = Perform K c point"
  shows "\<exists>s1 s2. compute_all K qs s = Inr s1 \<and>
           compute K point s1 = Inr s2 \<and> compute K point s = Inr s2 \<and>
           (\<forall>e\<in>set (projectors s1). \<forall>p. heap s1 (fst e) = Some p \<longrightarrow>
               heap s2 (fst e) = Some (Perform K p point))"
proof -
  obtain s1 where c: "compute_all K qs s = Inr s1"
    using compute_all_returns [OF v ne] by blast
  have f: "pool_valid s1" "compute K point s1 = compute K point s"
    using compute_all_forgets [OF H v c] by simp_all
  obtain s2 where c2: "compute K point s = Inr s2"
    using compute_returns [OF v ne] by blast
  have c1: "compute K point s1 = Inr s2" using f(2) c2 by simp
  have re: "\<forall>e\<in>set (projectors s1). \<forall>p. heap s1 (fst e) = Some p \<longrightarrow>
               heap s2 (fst e) = Some (Perform K p point)"
  proof (intro allI impI ballI)
    fix e p
    assume e: "e \<in> set (projectors s1)" and p: "heap s1 (fst e) = Some p"
    have "heap s2 = reproject K point s1"
      using compute_outcome [OF f(1) c1] by blast
    then show "heap s2 (fst e) = Some (Perform K p point)"
      using reproject_entry [OF e p] by simp
  qed
  show ?thesis
    by (rule exI [of _ s1], rule exI [of _ s2]) (intro conjI c c1 c2 re)
qed

theorem compute_independent_of_history_witness:
  "pool_valid two_squares \<and> projectors two_squares \<noteq> [] \<and>
   (\<exists>s1 s2. compute_all toy_kernel [far_point, origin3d] two_squares = Inr s1 \<and>
      solProjector s1 = (1, Face 1 (Plane_z 0)) \<and>
      heap s1 2 = Some (toy_project (Plane_z 10) origin3d) \<and>
      compute toy_kernel query_between s1 = Inr s2 \<and>
      compute toy_kernel query_between two_squares = Inr s2 \<and>
      heap s2 2 = Some (toy_project (Plane_z 10) query_between) \<and>
      solutionFace toy_kernel s2 = Inr (Face 1 (Plane_z 0)) \<and>
      solutionPoint toy_kernel s2 = Inr (Finite (1 / 2), Finite (1 / 2), Finite 0) \<and>
      solutionUV toy_kernel s2 = Inr (Finite (1 / 2), Finite (1 / 2)))"
proof -
  have v: "pool_valid two_squares"
    by (simp add: two_squares_def toy_eval)
  have ne: "projectors two_squares \<noteq> []"
    by (simp add: two_squares_def toy_pool_def ctor_def)
  obtain s1 s2 where t: "compute_all toy_kernel [far_point, origin3d] two_squares = Inr s1"
      "compute toy_kernel query_between s1 = Inr s2"
      "compute toy_kernel query_between two_squares = Inr s2"
    using compute_independent_of_history [OF v ne toy_Perform_fresh, of "[far_point, origin3d]"]
    by blast
  have h1: "solProjector s1 = (1, Face 1 (Plane_z 0))"
      "heap s1 2 = Some (toy_project (Plane_z 10) origin3d)"
    using two_squares_history t(1) by auto
  have h2: "heap s2 2 = Some (toy_project (Plane_z 10) query_between)"
      "solutionFace toy_kernel s2 = Inr (Face 1 (Plane_z 0))"
      "solutionPoint toy_kernel s2 = Inr (Finite (1 / 2), Finite (1 / 2), Finite 0)"
      "solutionUV toy_kernel s2 = Inr (Finite (1 / 2), Finite (1 / 2))"
    using t(3) by (auto simp: two_squares_def query_between_def toy_eval)
  show ?thesis using v ne t h1 h2 by blast
qed

text \<open>
  Claim C9. Whenever \<open>isDone\<close> returns false, no accessor faults and each returns its
  sentinel: \<open>solutionFace\<close> the null face, \<open>solutionPoint\<close> the origin, \<open>solutionUV\<close>
  \<open>(0,0)\<close> and \<open>solutionNormal\<close> the unit vector along +Z. The concrete run is a pool
  on which every projection fails.
\<close>

theorem not_done_accessors_return_sentinels:
  assumes "isDone K s = Inr False"
  shows "solutionFace K s = Inr (TopoDS_Face K) \<and>
         solutionPoint K s = Inr origin3d \<and>
         solutionUV K s = Inr (Finite 0, Finite 0) \<and>
         solutionNormal K s = Inr (Finite 0, Finite 0, Finite 1)"
  using assms
  by (simp add: solutionFace_def solutionPoint_def solutionUV_def solutionNormal_def origin3d_def)

theorem not_done_accessors_return_sentinels_witness:
  "\<exists>s'. compute toy_kernel query_between all_degenerate = Inr s' \<and>
        solProjector s' = (1, Face 1 Null_surface) \<and>
        isDone toy_kernel s' = Inr False \<and>
        solutionFace toy_kernel s' = Inr Null_face \<and>
        solutionPoint toy_kernel s' = Inr (Finite 0, Finite 0, Finite 0) \<and>
        solutionUV toy_kernel s' = Inr (Finite 0, Finite 0) \<and>
        solutionNormal toy_kernel s' = Inr (Finite 0, Finite 0, Finite 1)"
proof -
  obtain s' where s': "compute toy_kernel query_between all_degenerate = Inr s'"
      "solProjector s' = (1, Face 1 Null_surface)" "isDone toy_kernel s' = Inr False"
    using all_degenerate_compute by blast
  have "TopoDS_Face toy_kernel = Null_face" by (simp add: toy_kernel_def)
  then show ?thesis
    using s' not_done_accessors_return_sentinels [OF s'(3)] by (auto simp: origin3d_def)
qed

text \<open>
  Claim C10. On a freshly default-constructed projector the stored solution projector is
  the null pointer, \<open>isDone\<close> returns false, and each of the four accessors returns its
  sentinel value; none of them faults, so none reads through the null pointer.
\<close>

theorem fresh_projector_sentinels:
  "fst (solProjector (ctor K)) = 0 \<and>
   isDone K (ctor K) = Inr False \<and>
   solutionFace K (ctor K) = Inr (TopoDS_Face K) \<and>
   solutionPoint K (ctor K) = Inr origin3d \<and>
   solutionUV K (ctor K) = Inr (Finite 0, Finite 0) \<and>
   solutionNormal K (ctor K) = Inr (Finite 0, Finite 0, Finite 1)"
  by (simp add: ctor_def isDone_def solutionFace_def solutionPoint_def solutionUV_def
      solutionNormal_def origin3d_def)

end
